theory Spec2Isabelle
  imports Main "HOL-Library.Word"
begin

unbundle bit_operations_syntax

section \<open>Bytes and Go strings\<close>

text \<open>
  A Go \<^verbatim>\<open>[]byte\<close> is a list of 8-bit words; \<^verbatim>\<open>int32\<close> and \<^verbatim>\<open>int64\<close> are words
  of their width. A Go \<^verbatim>\<open>string\<close> is a sequence of bytes, modelled as a \<open>string\<close>
  (one \<open>char\<close> per byte); the conversions \<^verbatim>\<open>[]byte(s)\<close> and \<^verbatim>\<open>string(b)\<close> are
  \<open>bytes_of_string\<close> and \<open>string_of_bytes\<close>.
\<close>

type_synonym byte = "8 word"
type_synonym bytes = "byte list"
type_synonym int32 = "32 word"
type_synonym int64 = "64 word"

definition byte_of_char :: "char \<Rightarrow> byte" where
  "byte_of_char c = word_of_nat (of_char c)"

definition char_of_byte :: "byte \<Rightarrow> char" where
  "char_of_byte b = char_of (unat b)"

definition bytes_of_string :: "string \<Rightarrow> bytes" where
  "bytes_of_string s = map byte_of_char s"

definition string_of_bytes :: "bytes \<Rightarrow> string" where
  "string_of_bytes bs = map char_of_byte bs"

text \<open>\<^verbatim>\<open>strings.HasPrefix(s, prefix)\<close>.\<close>

definition HasPrefix :: "string \<Rightarrow> string \<Rightarrow> bool" where
  "HasPrefix s pre = (length pre \<le> length s \<and> take (length pre) s = pre)"

text \<open>\<^verbatim>\<open>bytes.IndexByte(b, c)\<close>: the index of the first \<open>c\<close> in \<open>b\<close>; Go's \<open>-1\<close> is \<open>None\<close>.\<close>

fun IndexByte :: "bytes \<Rightarrow> byte \<Rightarrow> nat option" where
  "IndexByte [] c = None"
| "IndexByte (x # xs) c = (if x = c then Some 0 else map_option Suc (IndexByte xs c))"

text \<open>\<^verbatim>\<open>strconv.Itoa\<close> on the loop indices of this file, which are never negative.\<close>

definition digit :: "nat \<Rightarrow> char" where
  "digit d = char_of (48 + d)"

function Itoa :: "nat \<Rightarrow> string" where
  "Itoa n = (if n < 10 then [digit n] else Itoa (n div 10) @ [digit (n mod 10)])"
  by pat_completeness auto
termination
  by (relation "measure (\<lambda>n. n)") auto

declare Itoa.simps [simp del]

section \<open>Go values\<close>

text \<open>A \<^verbatim>\<open>bson.ObjectID\<close> is a \<^verbatim>\<open>[12]byte\<close>.\<close>

datatype ObjectID =
  ObjectID byte byte byte byte byte byte byte byte byte byte byte byte

fun oid_bytes :: "ObjectID \<Rightarrow> bytes" where
  "oid_bytes (ObjectID a b c d e f g h i j k l) = [a, b, c, d, e, f, g, h, i, j, k, l]"

text \<open>
  The functions of \<^verbatim>\<open>mongo.go\<close> take \<^verbatim>\<open>interface{}\<close> values and dispatch on their
  dynamic type. A value is one of the types the type switches name, or a value of any
  other type, \<open>GUser\<close>, described by what the code can observe of it: the result of its
  \<^verbatim>\<open>MarshalBSON\<close> method when it implements \<^verbatim>\<open>bson.Marshaler\<close>, the result of its
  \<^verbatim>\<open>MarshalBSONValue\<close> method when it implements \<^verbatim>\<open>bson.ValueMarshaler\<close>, its
  elements when its \<^verbatim>\<open>reflect.Kind\<close> is Slice or Array (\<^verbatim>\<open>bson.A\<close>,
  \<^verbatim>\<open>mongo.Pipeline\<close>, \<^verbatim>\<open>[]interface{}\<close>, ...), and a number that tells values
  apart for the encoder. An error a method returns is a \<open>string\<close>. None of the named
  types has one of the two methods.
\<close>

datatype gvalue =
    GNil
  | GD "(string \<times> gvalue) list"
  | GE string gvalue
  | GRaw bytes
  | GCoreDocument bytes
  | GCoreArray bytes
  | GBytes bytes
  | GUint8 byte
  | GObjectID ObjectID
  | GUser "(bytes \<times> string option) option" "(byte \<times> bytes \<times> string option) option"
      "gvalue list option" nat

text \<open>\<^verbatim>\<open>reflect.ValueOf(t).IsValid()\<close>: false for the nil interface only.\<close>

definition IsValid :: "gvalue \<Rightarrow> bool" where
  "IsValid v = (v \<noteq> GNil)"

text \<open>
  The elements \<^verbatim>\<open>val.Index(0)\<close>, ..., \<^verbatim>\<open>val.Index(val.Len() - 1)\<close> of a value whose
  \<^verbatim>\<open>Kind\<close> is Slice or Array; \<open>None\<close> for every other kind. The document types and
  \<^verbatim>\<open>[]byte\<close> are slices of bytes, a \<^verbatim>\<open>bson.ObjectID\<close> is an array of twelve bytes, a
  \<^verbatim>\<open>bson.D\<close> is a slice of \<^verbatim>\<open>bson.E\<close> structs; a \<^verbatim>\<open>bson.E\<close> and a byte are no
  sequences.
\<close>

fun reflect_elems :: "gvalue \<Rightarrow> gvalue list option" where
  "reflect_elems (GD d) = Some (map (\<lambda>(k, v). GE k v) d)"
| "reflect_elems (GRaw bs) = Some (map GUint8 bs)"
| "reflect_elems (GCoreDocument bs) = Some (map GUint8 bs)"
| "reflect_elems (GCoreArray bs) = Some (map GUint8 bs)"
| "reflect_elems (GBytes bs) = Some (map GUint8 bs)"
| "reflect_elems (GObjectID oid) = Some (map GUint8 (oid_bytes oid))"
| "reflect_elems (GUser m vm els n) = els"
| "reflect_elems _ = None"

section \<open>Errors\<close>

datatype error =
    ErrNilDocument
  | MarshalError gvalue string
  | UserError string
  | ErrUnmarshalingDocument string
  | PanicSliceBounds
  | InsufficientBytesError
  | ErrOutOfBounds
  | ErrElementNotFound
  | ErrElementMissingKey
  | ErrElementMissingType
  | ErrNotEnoughBytesForLength
  | ValidateError string
  | ErrUpdateNoElements
  | ErrUpdateNoDollarKey
  | ErrReplacementDollarKey
  | ErrPipelineValueMarshalerType byte
  | ErrPipelineNotSliceOrArray
  | ErrPipelineSingleDocument
  | ErrUpdateInvalidValue
  | ErrUpdateValueMarshalerType byte

section \<open>The binary document primitives (package bsoncore)\<close>

text \<open>
  Modelled from the spec: package \<^verbatim>\<open>x/bsonx/bsoncore\<close> (the spec's "Binary Document
  Builder": reserve-length, append-typed-element, start/end nested document or array,
  patch length header at a byte offset, lookup element by key, indexed element access,
  full element enumeration) is called by \<^verbatim>\<open>mongo.go\<close> and is not among the verified
  sources. Every definition of this section stands for the function of that package with
  the same name and follows the BSON wire format the spec names: a document is a
  little-endian int32 total length, the elements, and a terminating zero byte; an element
  is a type byte, the key bytes, a zero byte, and the value, whose length follows from
  its type. Offsets into a buffer are natural numbers
  and the arithmetic on lengths that were read is done on \<open>int\<close>; Go uses \<^verbatim>\<open>int32\<close> and
  \<^verbatim>\<open>int\<close> there, which agrees for every buffer shorter than 2 GiB. Lengths that are
  written are \<^verbatim>\<open>int32\<close> values, with Go's wrap-around in the conversion from \<^verbatim>\<open>int\<close>.
\<close>

abbreviation (input) TypeDouble :: byte where "TypeDouble \<equiv> 0x01"
abbreviation (input) TypeString :: byte where "TypeString \<equiv> 0x02"
abbreviation (input) TypeEmbeddedDocument :: byte where "TypeEmbeddedDocument \<equiv> 0x03"
abbreviation (input) TypeArray :: byte where "TypeArray \<equiv> 0x04"
abbreviation (input) TypeBinary :: byte where "TypeBinary \<equiv> 0x05"
abbreviation (input) TypeUndefined :: byte where "TypeUndefined \<equiv> 0x06"
abbreviation (input) TypeObjectID :: byte where "TypeObjectID \<equiv> 0x07"
abbreviation (input) TypeBoolean :: byte where "TypeBoolean \<equiv> 0x08"
abbreviation (input) TypeDateTime :: byte where "TypeDateTime \<equiv> 0x09"
abbreviation (input) TypeNull :: byte where "TypeNull \<equiv> 0x0A"
abbreviation (input) TypeRegex :: byte where "TypeRegex \<equiv> 0x0B"
abbreviation (input) TypeDBPointer :: byte where "TypeDBPointer \<equiv> 0x0C"
abbreviation (input) TypeJavaScript :: byte where "TypeJavaScript \<equiv> 0x0D"
abbreviation (input) TypeSymbol :: byte where "TypeSymbol \<equiv> 0x0E"
abbreviation (input) TypeCodeWithScope :: byte where "TypeCodeWithScope \<equiv> 0x0F"
abbreviation (input) TypeInt32 :: byte where "TypeInt32 \<equiv> 0x10"
abbreviation (input) TypeTimestamp :: byte where "TypeTimestamp \<equiv> 0x11"
abbreviation (input) TypeInt64 :: byte where "TypeInt64 \<equiv> 0x12"
abbreviation (input) TypeDecimal128 :: byte where "TypeDecimal128 \<equiv> 0x13"
abbreviation (input) TypeMaxKey :: byte where "TypeMaxKey \<equiv> 0x7F"
abbreviation (input) TypeMinKey :: byte where "TypeMinKey \<equiv> 0xFF"

subsection \<open>Writing\<close>

definition le32 :: "int32 \<Rightarrow> bytes" where
  "le32 i = [ucast i, ucast (drop_bit 8 i), ucast (drop_bit 16 i), ucast (drop_bit 24 i)]"

definition le64 :: "int64 \<Rightarrow> bytes" where
  "le64 i = [ucast i, ucast (drop_bit 8 i), ucast (drop_bit 16 i), ucast (drop_bit 24 i),
             ucast (drop_bit 32 i), ucast (drop_bit 40 i), ucast (drop_bit 48 i),
             ucast (drop_bit 56 i)]"

definition appendi32 :: "bytes \<Rightarrow> int32 \<Rightarrow> bytes" where
  "appendi32 dst i = dst @ le32 i"

definition appendi64 :: "bytes \<Rightarrow> int64 \<Rightarrow> bytes" where
  "appendi64 dst i = dst @ le64 i"

text \<open>
  Modelled from the spec: \<^verbatim>\<open>bsoncore.ReserveLength\<close> ("reserve-length"); it returns the
  offset of the four bytes it appends.
\<close>

definition ReserveLength :: "bytes \<Rightarrow> nat \<times> bytes" where
  "ReserveLength dst = (length dst, dst @ [0, 0, 0, 0])"

text \<open>
  Modelled from the spec: \<^verbatim>\<open>bsoncore.UpdateLength\<close> ("patch length header at a byte
  offset") overwrites the four bytes at \<open>index\<close>. Every call below is on an offset whose
  four bytes exist (Go would panic otherwise).
\<close>

definition UpdateLength :: "bytes \<Rightarrow> nat \<Rightarrow> int32 \<Rightarrow> bytes" where
  "UpdateLength dst index l = take index dst @ le32 l @ drop (index + 4) dst"

text \<open>
  Modelled from the spec: the \<^verbatim>\<open>bsoncore.Append...\<close> functions ("append-typed-element",
  "start/end nested document or array"). An end writes the number of bytes from the
  offset of its start to the end of the buffer, terminator included, into the reserved
  four bytes, and fails when these four bytes are not there.
\<close>

definition AppendHeader :: "bytes \<Rightarrow> byte \<Rightarrow> string \<Rightarrow> bytes" where
  "AppendHeader dst t key = dst @ [t] @ bytes_of_string key @ [0]"

definition AppendDocumentStart :: "bytes \<Rightarrow> nat \<times> bytes" where
  "AppendDocumentStart dst = ReserveLength dst"

definition AppendArrayStart :: "bytes \<Rightarrow> nat \<times> bytes" where
  "AppendArrayStart dst = ReserveLength dst"

definition AppendDocumentElementStart :: "bytes \<Rightarrow> string \<Rightarrow> nat \<times> bytes" where
  "AppendDocumentElementStart dst key =
     AppendDocumentStart (AppendHeader dst TypeEmbeddedDocument key)"

definition AppendDocumentElement :: "bytes \<Rightarrow> string \<Rightarrow> bytes \<Rightarrow> bytes" where
  "AppendDocumentElement dst key doc = AppendHeader dst TypeEmbeddedDocument key @ doc"

definition AppendDocumentEnd :: "bytes \<Rightarrow> nat \<Rightarrow> bytes \<times> error option" where
  "AppendDocumentEnd dst index =
     (if int index > int (length dst) - 4 then (dst, Some ErrNotEnoughBytesForLength)
      else let dst' = dst @ [0]
           in (UpdateLength dst' index (word_of_nat (length (drop index dst'))), None))"

definition AppendArrayEnd :: "bytes \<Rightarrow> nat \<Rightarrow> bytes \<times> error option" where
  "AppendArrayEnd dst index = AppendDocumentEnd dst index"

definition AppendInt32Element :: "bytes \<Rightarrow> string \<Rightarrow> int32 \<Rightarrow> bytes" where
  "AppendInt32Element dst key i = appendi32 (AppendHeader dst TypeInt32 key) i"

definition AppendInt64Element :: "bytes \<Rightarrow> string \<Rightarrow> int64 \<Rightarrow> bytes" where
  "AppendInt64Element dst key i = appendi64 (AppendHeader dst TypeInt64 key) i"

text \<open>
  The zero test of an identifier (\<^verbatim>\<open>bson.ObjectID.IsZero\<close>, the comparison with
  \<^verbatim>\<open>bson.NilObjectID\<close>) and the element that carries one.
\<close>

definition NilObjectID :: ObjectID where
  "NilObjectID = ObjectID 0 0 0 0 0 0 0 0 0 0 0 0"

definition IsZero :: "ObjectID \<Rightarrow> bool" where
  "IsZero oid = (oid = NilObjectID)"

definition AppendObjectIDElement :: "bytes \<Rightarrow> string \<Rightarrow> ObjectID \<Rightarrow> bytes" where
  "AppendObjectIDElement dst key oid = AppendHeader dst TypeObjectID key @ oid_bytes oid"

subsection \<open>Reading\<close>

text \<open>Modelled from the spec: reading a little-endian int32.\<close>

definition readi32 :: "bytes \<Rightarrow> (int32 \<times> bytes) option" where
  "readi32 src =
     (case src of
        b0 # b1 # b2 # b3 # rem \<Rightarrow>
          Some (ucast b0 OR push_bit 8 (ucast b1) OR push_bit 16 (ucast b2)
                  OR push_bit 24 (ucast b3), rem)
      | _ \<Rightarrow> None)"

text \<open>
  Modelled from the spec: \<^verbatim>\<open>bsoncore.ReadLength\<close>, a length header; not ok when it is
  negative.
\<close>

definition ReadLength :: "bytes \<Rightarrow> (int \<times> bytes) option" where
  "ReadLength src =
     (case readi32 src of
        None \<Rightarrow> None
      | Some (ln, rem) \<Rightarrow> if ln <s 0 then None else Some (sint ln, rem))"

text \<open>
  Modelled from the spec: the length of a value of type \<open>t\<close> that starts at \<open>src\<close>, by
  the BSON types.
\<close>

definition valueLength :: "bytes \<Rightarrow> byte \<Rightarrow> int option" where
  "valueLength src t =
     (if t = TypeArray \<or> t = TypeEmbeddedDocument \<or> t = TypeCodeWithScope then
        map_option fst (ReadLength src)
      else if t = TypeBinary then
        map_option (\<lambda>(l, _). l + 4 + 1) (ReadLength src)
      else if t = TypeBoolean then Some 1
      else if t = TypeDBPointer then
        map_option (\<lambda>(l, _). l + 4 + 12) (ReadLength src)
      else if t = TypeDateTime \<or> t = TypeDouble \<or> t = TypeInt64 \<or> t = TypeTimestamp then Some 8
      else if t = TypeDecimal128 then Some 16
      else if t = TypeInt32 then Some 4
      else if t = TypeJavaScript \<or> t = TypeString \<or> t = TypeSymbol then
        map_option (\<lambda>(l, _). l + 4) (ReadLength src)
      else if t = TypeMaxKey \<or> t = TypeMinKey \<or> t = TypeNull \<or> t = TypeUndefined then Some 0
      else if t = TypeObjectID then Some 12
      else if t = TypeRegex then
        (case IndexByte src 0 of
           None \<Rightarrow> None
         | Some regex \<Rightarrow>
             (case IndexByte (drop (regex + 1) src) 0 of
                None \<Rightarrow> None
              | Some pattern \<Rightarrow> Some (int regex + 1 + int pattern + 1)))
      else None)"

text \<open>
  Modelled from the spec: \<^verbatim>\<open>bsoncore.ReadElement\<close>, the first element of \<open>src\<close> and the
  rest, or \<open>None\<close> (not ok) when the type byte, the key's terminator or the value's bytes
  are missing.
\<close>

definition ReadElement :: "bytes \<Rightarrow> (bytes \<times> bytes) option" where
  "ReadElement src =
     (case src of
        [] \<Rightarrow> None
      | t # rest \<Rightarrow>
          (case IndexByte rest 0 of
             None \<Rightarrow> None
           | Some idx \<Rightarrow>
               (case valueLength (drop (idx + 2) src) t of
                  None \<Rightarrow> None
                | Some l \<Rightarrow>
                    let elemLength = 1 + int idx + 1 + l
                    in if elemLength > int (length src) then None
                       else if elemLength < 0 then None
                       else Some (take (nat elemLength) src, drop (nat elemLength) src))))"

text \<open>
  Modelled from the spec: \<^verbatim>\<open>bsoncore.Element.Key\<close>, the key, or the empty string for an
  invalid element.
\<close>

definition Key :: "bytes \<Rightarrow> string" where
  "Key e =
     (case e of
        [] \<Rightarrow> []
      | t # rest \<Rightarrow>
          (case IndexByte rest 0 of
             None \<Rightarrow> []
           | Some idx \<Rightarrow> string_of_bytes (take idx rest)))"

text \<open>
  Modelled from the spec: a \<^verbatim>\<open>bsoncore.Value\<close> (the spec's BinaryValue), a type marker
  and the value's bytes.
\<close>

record Value =
  Type :: byte
  Data :: bytes

definition readValue :: "bytes \<Rightarrow> byte \<Rightarrow> bytes option" where
  "readValue src t =
     (case valueLength src t of
        None \<Rightarrow> None
      | Some l \<Rightarrow> if l > int (length src) then None else Some (take (nat l) src))"

text \<open>
  Modelled from the spec: \<^verbatim>\<open>bsoncore.Element.ValueErr\<close>, and \<^verbatim>\<open>Element.Value\<close>, which
  gives the empty Value for an invalid element.
\<close>

definition ValueErr :: "bytes \<Rightarrow> error + Value" where
  "ValueErr e =
     (case e of
        [] \<Rightarrow> Inl ErrElementMissingType
      | t # rest \<Rightarrow>
          (case IndexByte rest 0 of
             None \<Rightarrow> Inl ErrElementMissingKey
           | Some idx \<Rightarrow>
               (case readValue (drop (idx + 2) e) t of
                  None \<Rightarrow> Inl InsufficientBytesError
                | Some d \<Rightarrow> Inr \<lparr>Type = t, Data = d\<rparr>)))"

definition ElemValue :: "bytes \<Rightarrow> Value" where
  "ElemValue e = (case ValueErr e of Inl err \<Rightarrow> \<lparr>Type = 0, Data = []\<rparr> | Inr v \<Rightarrow> v)"

text \<open>
  Modelled from the spec: \<^verbatim>\<open>bsoncore.Value.DocumentOK\<close>, the document of a value of type
  embedded document.
\<close>

definition ReadDocument :: "bytes \<Rightarrow> (bytes \<times> bytes) option" where
  "ReadDocument src =
     (case ReadLength src of
        None \<Rightarrow> None
      | Some (l, _) \<Rightarrow>
          if l < 4 then None
          else if int (length src) < l then None
          else Some (take (nat l) src, drop (nat l) src))"

definition DocumentOK :: "Value \<Rightarrow> bytes option" where
  "DocumentOK v =
     (if Type v \<noteq> TypeEmbeddedDocument then None
      else map_option fst (ReadDocument (Data v)))"

text \<open>The loops below end because every element that is read takes bytes off the rest.\<close>

lemma ReadLength_nonneg: "ReadLength src = Some (l, rem) \<Longrightarrow> 0 \<le> l"
  by (auto simp: ReadLength_def word_sless_alt split: option.splits if_splits)

lemma valueLength_nonneg: "valueLength src t = Some l \<Longrightarrow> 0 \<le> l"
  by (auto simp: valueLength_def split: if_splits option.splits dest: ReadLength_nonneg)

lemma ReadElement_shorter:
  "ReadElement src = Some (elem, rem) \<Longrightarrow> length rem < length src"
  by (auto simp: ReadElement_def Let_def split: list.splits option.splits if_splits
      dest!: valueLength_nonneg)

text \<open>
  Modelled from the spec: \<^verbatim>\<open>bsoncore.Document.IndexErr\<close> ("indexed element access (fails
  if out of range)"), the element at \<open>index\<close>. The loop reads one element per round while
  more than the terminator is left of the declared length.
\<close>

function indexErr_loop :: "int \<Rightarrow> bytes \<Rightarrow> nat \<Rightarrow> nat \<Rightarrow> error + bytes" where
  "indexErr_loop l rem current index =
     (if l > 1 then
        (case ReadElement rem of
           None \<Rightarrow> Inl InsufficientBytesError
         | Some (elem, rem') \<Rightarrow>
             if current \<noteq> index
             then indexErr_loop (l - int (length elem)) rem' (current + 1) index
             else Inr elem)
      else Inl ErrOutOfBounds)"
  by pat_completeness auto
termination
  by (relation "measure (\<lambda>(l, rem, current, index). length rem)")
    (auto dest: ReadElement_shorter)

declare indexErr_loop.simps [simp del]

definition IndexErr :: "bytes \<Rightarrow> nat \<Rightarrow> error + bytes" where
  "IndexErr d index =
     (case ReadLength d of
        None \<Rightarrow> Inl InsufficientBytesError
      | Some (l, rem) \<Rightarrow> indexErr_loop (l - 4) rem 0 index)"

text \<open>
  Modelled from the spec: \<^verbatim>\<open>bsoncore.Document.Values\<close> and \<^verbatim>\<open>bsoncore.Array.Values\<close>
  ("full element enumeration"), the values of all elements, in order. The function
  returns a slice and an error: when an element cannot be read, the error comes with the
  values read before it; when the length header cannot be read, with no value.
\<close>

function values_loop :: "int \<Rightarrow> bytes \<Rightarrow> Value list \<Rightarrow> Value list \<times> error option" where
  "values_loop l rem vals =
     (if l > 1 then
        (case ReadElement rem of
           None \<Rightarrow> (vals, Some InsufficientBytesError)
         | Some (elem, rem') \<Rightarrow>
             values_loop (l - int (length elem)) rem' (vals @ [ElemValue elem]))
      else (vals, None))"
  by pat_completeness auto
termination
  by (relation "measure (\<lambda>(l, rem, vals). length rem)")
    (auto dest: ReadElement_shorter)

declare values_loop.simps [simp del]

definition Values :: "bytes \<Rightarrow> Value list \<times> error option" where
  "Values b =
     (case ReadLength b of
        None \<Rightarrow> ([], Some InsufficientBytesError)
      | Some (l, rem) \<Rightarrow> values_loop (l - 4) rem [])"

text \<open>
  Modelled from the spec: \<^verbatim>\<open>bsoncore.Document.LookupErr\<close> with one key ("lookup element
  by key (fails if absent)"), the value of the first element with that key.
\<close>

function lookupErr_loop :: "int \<Rightarrow> bytes \<Rightarrow> string \<Rightarrow> error + Value" where
  "lookupErr_loop l rem key =
     (if l > 1 then
        (case ReadElement rem of
           None \<Rightarrow> Inl InsufficientBytesError
         | Some (elem, rem') \<Rightarrow>
             if Key elem \<noteq> key
             then lookupErr_loop (l - int (length elem)) rem' key
             else ValueErr elem)
      else Inl ErrElementNotFound)"
  by pat_completeness auto
termination
  by (relation "measure (\<lambda>(l, rem, key). length rem)")
    (auto dest: ReadElement_shorter)

declare lookupErr_loop.simps [simp del]

definition LookupErr :: "bytes \<Rightarrow> string \<Rightarrow> error + Value" where
  "LookupErr d key =
     (case ReadLength d of
        None \<Rightarrow> Inl InsufficientBytesError
      | Some (l, rem) \<Rightarrow> lookupErr_loop (l - 4) rem key)"

section \<open>The dollar-key checks\<close>

definition ensureDollarKey :: "bytes \<Rightarrow> error option" where
  "ensureDollarKey doc =
     (case IndexErr doc 0 of
        Inl err \<Rightarrow> Some ErrUpdateNoElements
      | Inr firstElem \<Rightarrow>
          if \<not> HasPrefix (Key firstElem) ''$'' then Some ErrUpdateNoDollarKey
          else None)"

definition ensureNoDollarKey :: "bytes \<Rightarrow> error option" where
  "ensureNoDollarKey doc =
     (case IndexErr doc 0 of
        Inr elem \<Rightarrow> if HasPrefix (Key elem) ''$'' then Some ErrReplacementDollarKey else None
      | Inl err \<Rightarrow> None)"

section \<open>Encoder configuration\<close>

text \<open>
  The fields of \<^verbatim>\<open>options.BSONOptions\<close> that \<^verbatim>\<open>getEncoder\<close> reads, and the state of
  a \<^verbatim>\<open>bson.Encoder\<close> they set. A registry is a reference, told apart by a number.
\<close>

datatype Registry = Registry nat

record BSONOptions =
  ErrorOnInlineDuplicates :: bool
  IntMinSize :: bool
  NilByteSliceAsEmpty :: bool
  NilMapAsEmpty :: bool
  NilSliceAsEmpty :: bool
  OmitZeroStruct :: bool
  OmitEmpty :: bool
  StringifyMapKeysWithFmt :: bool
  UseJSONStructTags :: bool

record Encoder =
  errorOnInlineDuplicates :: bool
  intMinSize :: bool
  nilByteSliceAsEmpty :: bool
  nilMapAsEmpty :: bool
  nilSliceAsEmpty :: bool
  omitZeroStruct :: bool
  omitEmpty :: bool
  stringifyMapKeysWithFmt :: bool
  useJSONStructTags :: bool
  encRegistry :: "Registry option"

definition NewEncoder :: Encoder where
  "NewEncoder =
     \<lparr>errorOnInlineDuplicates = False, intMinSize = False, nilByteSliceAsEmpty = False,
      nilMapAsEmpty = False, nilSliceAsEmpty = False, omitZeroStruct = False,
      omitEmpty = False, stringifyMapKeysWithFmt = False, useJSONStructTags = False,
      encRegistry = None\<rparr>"

definition getEncoder :: "BSONOptions option \<Rightarrow> Registry option \<Rightarrow> Encoder" where
  "getEncoder opts reg =
     (let enc = NewEncoder;
          enc =
            (case opts of
               None \<Rightarrow> enc
             | Some opts \<Rightarrow>
                 (let enc = (if ErrorOnInlineDuplicates opts
                             then enc\<lparr>errorOnInlineDuplicates := True\<rparr> else enc);
                      enc = (if IntMinSize opts then enc\<lparr>intMinSize := True\<rparr> else enc);
                      enc = (if NilByteSliceAsEmpty opts
                             then enc\<lparr>nilByteSliceAsEmpty := True\<rparr> else enc);
                      enc = (if NilMapAsEmpty opts then enc\<lparr>nilMapAsEmpty := True\<rparr> else enc);
                      enc = (if NilSliceAsEmpty opts
                             then enc\<lparr>nilSliceAsEmpty := True\<rparr> else enc);
                      enc = (if OmitZeroStruct opts then enc\<lparr>omitZeroStruct := True\<rparr> else enc);
                      enc = (if OmitEmpty opts then enc\<lparr>omitEmpty := True\<rparr> else enc);
                      enc = (if StringifyMapKeysWithFmt opts
                             then enc\<lparr>stringifyMapKeysWithFmt := True\<rparr> else enc);
                      enc = (if UseJSONStructTags opts
                             then enc\<lparr>useJSONStructTags := True\<rparr> else enc)
                  in enc));
          enc = (case reg of None \<Rightarrow> enc | Some r \<Rightarrow> enc\<lparr>encRegistry := Some r\<rparr>)
      in enc)"

section \<open>The collaborators\<close>

text \<open>
  What \<^verbatim>\<open>mongo.go\<close> calls from package \<^verbatim>\<open>bson\<close> and from other files, beyond the
  bsoncore primitives above, is a parameter of its functions:
  \<^item> \<open>defaultRegistry\<close>: the package variable \<^verbatim>\<open>defaultRegistry\<close>;
  \<^item> \<open>Encode\<close>: \<^verbatim>\<open>(*bson.Encoder).Encode\<close> on an encoder that writes into a fresh
    buffer: the encoder's error, or the bytes of the buffer;
  \<^item> \<open>DecodeID\<close>: \<^verbatim>\<open>getDecoder(doc, bsonOpts, reg).Decode(&id)\<close> for the struct with
    the one field \<^verbatim>\<open>ID interface{} `bson:"_id"`\<close>: the decoder's error, or the field;
  \<^item> \<open>NewObjectID\<close>: the identifier \<^verbatim>\<open>bson.NewObjectID()\<close> returns when called;
  \<^item> \<open>Validate\<close>: \<^verbatim>\<open>bsoncore.Array.Validate\<close>.
\<close>

record env =
  defaultRegistry :: Registry
  Encode :: "Encoder \<Rightarrow> gvalue \<Rightarrow> string + bytes"
  DecodeID :: "bytes \<Rightarrow> BSONOptions option \<Rightarrow> Registry \<Rightarrow> string + gvalue"
  NewObjectID :: ObjectID
  Validate :: "bytes \<Rightarrow> string option"

section \<open>marshal\<close>

definition marshal ::
  "env \<Rightarrow> gvalue \<Rightarrow> BSONOptions option \<Rightarrow> Registry option \<Rightarrow> error + bytes" where
  "marshal E val bsonOpts registry =
     (let registry = (case registry of None \<Rightarrow> defaultRegistry E | Some r \<Rightarrow> r)
      in if val = GNil then Inl ErrNilDocument
         else
           let val = (case val of GBytes bs \<Rightarrow> GRaw bs | _ \<Rightarrow> val)
           in (case Encode E (getEncoder bsonOpts (Some registry)) val of
                 Inl err \<Rightarrow> Inl (MarshalError val err)
               | Inr buf \<Rightarrow> Inr buf))"

section \<open>ensureID\<close>

text \<open>
  The slice expression \<^verbatim>\<open>olddoc[int32Len:]\<close> panics when \<open>olddoc\<close> has fewer than four
  bytes; the panic is the result \<open>Inl PanicSliceBounds\<close>.
\<close>

definition ensureID ::
  "env \<Rightarrow> bytes \<Rightarrow> ObjectID \<Rightarrow> BSONOptions option \<Rightarrow> Registry option
     \<Rightarrow> error + (bytes \<times> gvalue)" where
  "ensureID E doc oid bsonOpts reg =
     (let reg = (case reg of None \<Rightarrow> defaultRegistry E | Some r \<Rightarrow> r)
      in case LookupErr doc ''_id'' of
           Inr _ \<Rightarrow>
             (case DecodeID E doc bsonOpts reg of
                Inl err \<Rightarrow> Inl (ErrUnmarshalingDocument err)
              | Inr idv \<Rightarrow> Inr (doc, idv))
         | Inl _ \<Rightarrow>
             (let olddoc = doc;
                  (_, doc) = ReserveLength [];
                  oid = (if IsZero oid then NewObjectID E else oid);
                  doc = AppendObjectIDElement doc ''_id'' oid
              in if length olddoc < 4 then Inl PanicSliceBounds
                 else
                   let doc = doc @ drop 4 olddoc;
                       doc = UpdateLength doc 0 (word_of_nat (length doc))
                   in Inr (doc, GObjectID oid)))"

section \<open>marshalAggregatePipeline\<close>

text \<open>The loop over the elements of a slice or array; \<open>idx\<close> counts from 0.\<close>

fun pipeline_loop ::
  "env \<Rightarrow> BSONOptions option \<Rightarrow> Registry option \<Rightarrow> nat \<Rightarrow> gvalue list \<Rightarrow> nat \<Rightarrow> bytes \<Rightarrow> bool
     \<Rightarrow> error + (bytes \<times> bool)" where
  "pipeline_loop E bsonOpts registry valLen [] idx arr hasOutputStage =
     Inr (arr, hasOutputStage)"
| "pipeline_loop E bsonOpts registry valLen (x # xs) idx arr hasOutputStage =
     (case marshal E x bsonOpts registry of
        Inl err \<Rightarrow> Inl err
      | Inr doc \<Rightarrow>
          (let hasOutputStage =
                 (if int idx = int valLen - 1 then
                    (case IndexErr doc 0 of
                       Inr elem \<Rightarrow>
                         if Key elem = ''$out'' \<or> Key elem = ''$merge'' then True
                         else hasOutputStage
                     | Inl err \<Rightarrow> hasOutputStage)
                  else hasOutputStage);
               arr = AppendDocumentElement arr (Itoa idx) doc
           in pipeline_loop E bsonOpts registry valLen xs (idx + 1) arr hasOutputStage))"

definition marshalAggregatePipeline ::
  "env \<Rightarrow> gvalue \<Rightarrow> BSONOptions option \<Rightarrow> Registry option \<Rightarrow> error + (bytes \<times> bool)" where
  "marshalAggregatePipeline E pipeline bsonOpts registry =
     (case pipeline of
        GUser m (Some (btype, val, err)) els n \<Rightarrow>
          (case err of
             Some e \<Rightarrow> Inl (UserError e)
           | None \<Rightarrow>
               if btype \<noteq> TypeArray then Inl (ErrPipelineValueMarshalerType btype)
               else
                 (let pipelineDoc = val;
                      (values, _) = Values pipelineDoc;
                      pipelineLen = length values;
                      hasOutputStage =
                        (if pipelineLen > 0 then
                           (case DocumentOK (values ! (pipelineLen - 1)) of
                              Some finalDoc \<Rightarrow>
                                (case IndexErr finalDoc 0 of
                                   Inr elem \<Rightarrow> Key elem = ''$out'' \<or> Key elem = ''$merge''
                                 | Inl _ \<Rightarrow> False)
                            | None \<Rightarrow> False)
                         else False)
                  in Inr (pipelineDoc, hasOutputStage)))
      | _ \<Rightarrow>
          (case (if IsValid pipeline then reflect_elems pipeline else None) of
             None \<Rightarrow> Inl ErrPipelineNotSliceOrArray
           | Some elems \<Rightarrow>
               (let valLen = length elems;
                    generic =
                      (let (aidx, arr) = AppendArrayStart []
                       in case pipeline_loop E bsonOpts registry valLen elems 0 arr False of
                            Inl err \<Rightarrow> Inl err
                          | Inr (arr, hasOutputStage) \<Rightarrow>
                              (let (arr, _) = AppendArrayEnd arr aidx
                               in Inr (arr, hasOutputStage)));
                    singleDocument =
                      (if valLen > 0 then Inl ErrPipelineSingleDocument else generic)
                in case pipeline of
                     GD _ \<Rightarrow> singleDocument
                   | GRaw _ \<Rightarrow> singleDocument
                   | GCoreDocument _ \<Rightarrow> singleDocument
                   | GCoreArray t \<Rightarrow>
                       (case Validate E t of
                          Some err \<Rightarrow> Inl (ValidateError err)
                        | None \<Rightarrow>
                            (case Values t of
                               (values, Some err) \<Rightarrow> Inl err
                             | (values, None) \<Rightarrow>
                                 (let numVals = length values
                                  in if numVals = 0 then Inr (t, False)
                                     else
                                       Inr (t,
                                         (case DocumentOK (values ! (numVals - 1)) of
                                            Some lastStage \<Rightarrow>
                                              (case IndexErr lastStage 0 of
                                                 Inr elem \<Rightarrow>
                                                   Key elem = ''$out'' \<or> Key elem = ''$merge''
                                               | Inl _ \<Rightarrow> False)
                                          | None \<Rightarrow> False)))))
                   | _ \<Rightarrow> generic)))"

section \<open>marshalUpdateValue\<close>

text \<open>
  The function returns the value \<open>u\<close> together with the error; \<open>None\<close> is Go's nil
  error. The loop returns the error of the first element that fails, or the array's
  bytes so far.
\<close>

fun update_loop ::
  "env \<Rightarrow> BSONOptions option \<Rightarrow> Registry option \<Rightarrow> (bytes \<Rightarrow> error option) \<Rightarrow> gvalue list
     \<Rightarrow> nat \<Rightarrow> bytes \<Rightarrow> error + bytes" where
  "update_loop E bsonOpts registry documentCheckerFunc [] idx arr = Inr arr"
| "update_loop E bsonOpts registry documentCheckerFunc (x # xs) idx arr =
     (case marshal E x bsonOpts registry of
        Inl err \<Rightarrow> Inl err
      | Inr doc \<Rightarrow>
          (case documentCheckerFunc doc of
             Some err \<Rightarrow> Inl err
           | None \<Rightarrow>
               update_loop E bsonOpts registry documentCheckerFunc xs (idx + 1)
                 (AppendDocumentElement arr (Itoa idx) doc)))"

definition marshalUpdateValue ::
  "env \<Rightarrow> gvalue \<Rightarrow> BSONOptions option \<Rightarrow> Registry option \<Rightarrow> bool \<Rightarrow> Value \<times> error option" where
  "marshalUpdateValue E update bsonOpts registry dollarKeysAllowed =
     (let documentCheckerFunc =
            (if \<not> dollarKeysAllowed then ensureNoDollarKey else ensureDollarKey);
          u = \<lparr>Type = 0, Data = []\<rparr>;
          encoded =
            (let u = u\<lparr>Type := TypeEmbeddedDocument\<rparr>
             in case marshal E update bsonOpts registry of
                  Inl err \<Rightarrow> (u\<lparr>Data := []\<rparr>, Some err)
                | Inr d \<Rightarrow> (let u = u\<lparr>Data := d\<rparr> in (u, documentCheckerFunc (Data u))));
          preEncoded =
            (\<lambda>t. let u = u\<lparr>Type := TypeEmbeddedDocument\<rparr>;
                      u = u\<lparr>Data := t\<rparr>
                  in (u, documentCheckerFunc (Data u)))
      in case update of
           GNil \<Rightarrow> (u, Some ErrNilDocument)
         | GD _ \<Rightarrow> encoded
         | GRaw t \<Rightarrow> preEncoded t
         | GCoreDocument t \<Rightarrow> preEncoded t
         | GBytes t \<Rightarrow> preEncoded t
         | GUser (Some (data, err)) vm els n \<Rightarrow>
             (let u = u\<lparr>Type := TypeEmbeddedDocument\<rparr>;
                  u = u\<lparr>Data := data\<rparr>
              in case err of
                   Some e \<Rightarrow> (u, Some (UserError e))
                 | None \<Rightarrow> (u, documentCheckerFunc (Data u)))
         | GUser None (Some (tt, data, err)) els n \<Rightarrow>
             (let u = u\<lparr>Type := tt\<rparr>;
                  u = u\<lparr>Data := data\<rparr>
              in case err of
                   Some e \<Rightarrow> (u, Some (UserError e))
                 | None \<Rightarrow>
                     if Type u \<noteq> TypeArray \<and> Type u \<noteq> TypeEmbeddedDocument
                     then (u, Some (ErrUpdateValueMarshalerType (Type u)))
                     else (u, None))
         | _ \<Rightarrow>
             if \<not> IsValid update then (u, Some ErrUpdateInvalidValue)
             else
               (case reflect_elems update of
                  None \<Rightarrow> encoded
                | Some elems \<Rightarrow>
                    (let u = u\<lparr>Type := TypeArray\<rparr>;
                         (aidx, arr) = AppendArrayStart []
                     in case update_loop E bsonOpts registry documentCheckerFunc elems 0 arr of
                          Inl err \<Rightarrow> (u, Some err)
                        | Inr arr \<Rightarrow>
                            (let (d, _) = AppendArrayEnd arr aidx;
                                 u = u\<lparr>Data := d\<rparr>
                             in (u, None)))))"

section \<open>countDocumentsAggregatePipeline\<close>

text \<open>The two fields of \<^verbatim>\<open>options.CountOptions\<close> the function reads; \<open>None\<close> is nil.\<close>

record CountOptions =
  Skip :: "int64 option"
  Limit :: "int64 option"

definition countDocumentsAggregatePipeline ::
  "env \<Rightarrow> gvalue \<Rightarrow> BSONOptions option \<Rightarrow> Registry option \<Rightarrow> CountOptions option
     \<Rightarrow> error + bytes" where
  "countDocumentsAggregatePipeline E filterv encOpts registry args =
     (case marshal E filterv encOpts registry of
        Inl err \<Rightarrow> Inl err
      | Inr filterDoc \<Rightarrow>
          (let (aidx, arr) = AppendArrayStart [];
               (didx, arr) = AppendDocumentElementStart arr (Itoa 0);
               arr = AppendDocumentElement arr ''$match'' filterDoc;
               (arr, _) = AppendDocumentEnd arr didx;
               index = 1;
               (arr, index) =
                 (case args of
                    None \<Rightarrow> (arr, index)
                  | Some args \<Rightarrow>
                      (let (arr, index) =
                             (case Skip args of
                                None \<Rightarrow> (arr, index)
                              | Some skip \<Rightarrow>
                                  (let (didx, arr) = AppendDocumentElementStart arr (Itoa index);
                                       arr = AppendInt64Element arr ''$skip'' skip;
                                       (arr, _) = AppendDocumentEnd arr didx
                                   in (arr, index + 1)));
                           (arr, index) =
                             (case Limit args of
                                None \<Rightarrow> (arr, index)
                              | Some limit \<Rightarrow>
                                  (let (didx, arr) = AppendDocumentElementStart arr (Itoa index);
                                       arr = AppendInt64Element arr ''$limit'' limit;
                                       (arr, _) = AppendDocumentEnd arr didx
                                   in (arr, index + 1)))
                       in (arr, index)));
               (didx, arr) = AppendDocumentElementStart arr (Itoa index);
               (iidx, arr) = AppendDocumentElementStart arr ''$group'';
               arr = AppendInt32Element arr ''_id'' 1;
               (iiidx, arr) = AppendDocumentElementStart arr ''n'';
               arr = AppendInt32Element arr ''$sum'' 1;
               (arr, _) = AppendDocumentEnd arr iiidx;
               (arr, _) = AppendDocumentEnd arr iidx;
               (arr, _) = AppendDocumentEnd arr didx
           in case AppendArrayEnd arr aidx of
                (arr, None) \<Rightarrow> Inr arr
              | (arr, Some err) \<Rightarrow> Inl err))"

section \<open>The wire format, as a reference\<close>

text \<open>
  What the results are compared with: a document is framed by its length and a zero
  byte, an element is its type, its key, a zero byte and its value, and an array is the
  document whose keys are the decimal indices 0, 1, 2, ... in order.
\<close>

definition frame :: "bytes \<Rightarrow> bytes" where
  "frame body = le32 (word_of_nat (length body + 5)) @ body @ [0]"

definition element :: "byte \<Rightarrow> string \<Rightarrow> bytes \<Rightarrow> bytes" where
  "element t key v = [t] @ bytes_of_string key @ [0] @ v"

datatype bval =
    VInt32 int32
  | VInt64 int64
  | VEncoded bytes
  | VDocument "(string \<times> bval) list"

fun bval_type :: "bval \<Rightarrow> byte" where
  "bval_type (VInt32 i) = TypeInt32"
| "bval_type (VInt64 i) = TypeInt64"
| "bval_type (VEncoded d) = TypeEmbeddedDocument"
| "bval_type (VDocument kvs) = TypeEmbeddedDocument"

fun encode_bval :: "bval \<Rightarrow> bytes" where
  "encode_bval (VInt32 i) = le32 i"
| "encode_bval (VInt64 i) = le64 i"
| "encode_bval (VEncoded d) = d"
| "encode_bval (VDocument kvs) =
     frame (concat (map (\<lambda>kv. element (bval_type (snd kv)) (fst kv) (encode_bval (snd kv))) kvs))"

fun array_elements :: "nat \<Rightarrow> bval list \<Rightarrow> bytes" where
  "array_elements i [] = []"
| "array_elements i (v # vs) =
     element (bval_type v) (Itoa i) (encode_bval v) @ array_elements (i + 1) vs"

definition encode_array :: "bval list \<Rightarrow> bytes" where
  "encode_array vs = frame (array_elements 0 vs)"

text \<open>
  The count pipeline in the spec's words: \<open>{$match: filter}\<close>, then \<open>{$skip: n}\<close> if skip
  is present, then \<open>{$limit: n}\<close> if limit is present, then
  \<open>{$group: {_id: 1, n: {$sum: 1}}}\<close>.
\<close>

definition spec_countPipeline :: "bytes \<Rightarrow> int64 option \<Rightarrow> int64 option \<Rightarrow> bval list" where
  "spec_countPipeline filterDoc skip limit =
     [VDocument [(''$match'', VEncoded filterDoc)]]
     @ (case skip of None \<Rightarrow> [] | Some n \<Rightarrow> [VDocument [(''$skip'', VInt64 n)]])
     @ (case limit of None \<Rightarrow> [] | Some n \<Rightarrow> [VDocument [(''$limit'', VInt64 n)]])
     @ [VDocument [(''$group'',
          VDocument [(''_id'', VInt32 1), (''n'', VDocument [(''$sum'', VInt32 1)])])]]"

section \<open>Specification vocabulary\<close>

text \<open>
  A document whose length header is the number of its bytes; the first key of a document
  is \<open>$out\<close> or \<open>$merge\<close>; a pipeline has an output stage when it is not empty, its last
  value is a document, and that document is an output stage; the values of a pipeline,
  which are the values its enumeration hands back; an element of an update normalized to
  a document and checked.
\<close>

definition wf_document :: "bytes \<Rightarrow> bool" where
  "wf_document d = (ReadLength d = Some (int (length d), drop 4 d))"

definition isOutputStage :: "bytes \<Rightarrow> bool" where
  "isOutputStage doc =
     (case IndexErr doc 0 of
        Inl err \<Rightarrow> False
      | Inr elem \<Rightarrow> Key elem = ''$out'' \<or> Key elem = ''$merge'')"

definition spec_hasOutputStage :: "Value list \<Rightarrow> bool" where
  "spec_hasOutputStage vs =
     (vs \<noteq> [] \<and> (case DocumentOK (last vs) of None \<Rightarrow> False | Some d \<Rightarrow> isOutputStage d))"

definition pipelineValues :: "bytes \<Rightarrow> Value list" where
  "pipelineValues arr = fst (Values arr)"

definition normalizeChecked ::
  "env \<Rightarrow> BSONOptions option \<Rightarrow> Registry option \<Rightarrow> (bytes \<Rightarrow> error option) \<Rightarrow> gvalue
     \<Rightarrow> error + bytes" where
  "normalizeChecked E bsonOpts registry check x =
     (case marshal E x bsonOpts registry of
        Inl err \<Rightarrow> Inl err
      | Inr doc \<Rightarrow> (case check doc of Some err \<Rightarrow> Inl err | None \<Rightarrow> Inr doc))"

text \<open>
  The pipeline normalizer in the words of the specification: a ValueMarshaler must declare
  an array, and the last value of its array decides the output stage; a non-empty value
  of a type that is one document is refused (the types are those the code lists:
  \<^verbatim>\<open>bson.D\<close>, \<^verbatim>\<open>bson.Raw\<close>, \<^verbatim>\<open>bsoncore.Document\<close>); an encoded array is validated and
  returned as it is, its last value deciding the output stage; of any other sequence
  every stage is normalized in order, the first failure ends the call, the documents are
  written as an array under the keys 0, 1, 2, ..., and the last document decides the
  output stage. \<open>marshal_all\<close> normalizes the stages of a sequence in order.
\<close>

fun marshal_all ::
  "env \<Rightarrow> BSONOptions option \<Rightarrow> Registry option \<Rightarrow> gvalue list \<Rightarrow> error + bytes list" where
  "marshal_all E bsonOpts registry [] = Inr []"
| "marshal_all E bsonOpts registry (x # xs) =
     (case marshal E x bsonOpts registry of
        Inl err \<Rightarrow> Inl err
      | Inr doc \<Rightarrow>
          (case marshal_all E bsonOpts registry xs of
             Inl err \<Rightarrow> Inl err
           | Inr docs \<Rightarrow> Inr (doc # docs)))"

fun isSingleDocument :: "gvalue \<Rightarrow> bool" where
  "isSingleDocument (GD d) = True"
| "isSingleDocument (GRaw bs) = True"
| "isSingleDocument (GCoreDocument bs) = True"
| "isSingleDocument _ = False"

definition spec_normalizePipeline ::
  "env \<Rightarrow> gvalue \<Rightarrow> BSONOptions option \<Rightarrow> Registry option \<Rightarrow> error + (bytes \<times> bool)" where
  "spec_normalizePipeline E pipeline bsonOpts registry =
     (case pipeline of
        GUser m (Some (btype, val, err)) els n \<Rightarrow>
          (case err of
             Some e \<Rightarrow> Inl (UserError e)
           | None \<Rightarrow>
               if btype \<noteq> TypeArray then Inl (ErrPipelineValueMarshalerType btype)
               else Inr (val, spec_hasOutputStage (pipelineValues val)))
      | GCoreArray t \<Rightarrow>
          (case Validate E t of
             Some e \<Rightarrow> Inl (ValidateError e)
           | None \<Rightarrow>
               (case snd (Values t) of
                  Some err \<Rightarrow> Inl err
                | None \<Rightarrow> Inr (t, spec_hasOutputStage (pipelineValues t))))
      | _ \<Rightarrow>
          (case (if IsValid pipeline then reflect_elems pipeline else None) of
             None \<Rightarrow> Inl ErrPipelineNotSliceOrArray
           | Some stages \<Rightarrow>
               if isSingleDocument pipeline \<and> stages \<noteq> [] then Inl ErrPipelineSingleDocument
               else
                 (case marshal_all E bsonOpts registry stages of
                    Inl err \<Rightarrow> Inl err
                  | Inr docs \<Rightarrow>
                      Inr (encode_array (map VEncoded docs),
                           docs \<noteq> [] \<and> isOutputStage (last docs)))))"

section \<open>An instance of the collaborators\<close>

text \<open>
  For evaluating the functions on concrete inputs: an encoder that copies a
  \<^verbatim>\<open>bson.Raw\<close> whose length header is the number of its bytes and knows no other type, a
  decoder that reads an ObjectID stored under \<open>_id\<close>, a fixed new identifier, and a
  validation that accepts the arrays whose elements can be enumerated.
\<close>

definition exampleEnv :: env where
  "exampleEnv =
     \<lparr>defaultRegistry = Registry 0,
      Encode = (\<lambda>enc v.
        case v of
          GRaw bs \<Rightarrow>
            if ReadLength bs = Some (int (length bs), drop 4 bs) then Inr bs
            else Inl ''invalid document length''
        | _ \<Rightarrow> Inl ''no encoder found''),
      DecodeID = (\<lambda>doc opts reg.
        case LookupErr doc ''_id'' of
          Inl err \<Rightarrow> Inr GNil
        | Inr v \<Rightarrow>
            (case Data v of
               [a, b, c, d, e, f, g, h, i, j, k, l] \<Rightarrow>
                 if Type v = TypeObjectID then Inr (GObjectID (ObjectID a b c d e f g h i j k l))
                 else Inl ''cannot decode''
             | _ \<Rightarrow> Inl ''cannot decode'')),
      NewObjectID = ObjectID 1 2 3 4 5 6 7 8 9 10 11 12,
      Validate = (\<lambda>bs. case snd (Values bs) of
                          Some err \<Rightarrow> Some ''invalid array'' | None \<Rightarrow> None)\<rparr>"

lemma exampleEnv_wf: "\<forall>enc v d. Encode exampleEnv enc v = Inr d \<longrightarrow> wf_document d"
  by (auto simp: exampleEnv_def wf_document_def split: gvalue.splits if_splits)

lemma exampleEnv_fields:
  "defaultRegistry exampleEnv = Registry 0"
  "Encode exampleEnv enc (GRaw bs) =
     (if ReadLength bs = Some (int (length bs), drop 4 bs) then Inr bs
      else Inl ''invalid document length'')"
  "Encode exampleEnv enc (GUint8 b) = Inl ''no encoder found''"
  "DecodeID exampleEnv doc opts reg =
     (case LookupErr doc ''_id'' of
        Inl err \<Rightarrow> Inr GNil
      | Inr v \<Rightarrow>
          (case Data v of
             [a, b, c, d, e, f, g, h, i, j, k, l] \<Rightarrow>
               if Type v = TypeObjectID then Inr (GObjectID (ObjectID a b c d e f g h i j k l))
               else Inl ''cannot decode''
           | _ \<Rightarrow> Inl ''cannot decode''))"
  "NewObjectID exampleEnv = ObjectID 1 2 3 4 5 6 7 8 9 10 11 12"
  "Validate exampleEnv bs =
     (case snd (Values bs) of Some err \<Rightarrow> Some ''invalid array'' | None \<Rightarrow> None)"
  by (simp_all add: exampleEnv_def)

section \<open>Facts about the primitives\<close>

subsection \<open>Strings and keys\<close>

lemma char_of_byte_of_char [simp]: "char_of_byte (byte_of_char c) = c"
  by (simp add: char_of_byte_def byte_of_char_def unat_of_nat)

lemma string_of_bytes_of_string [simp]: "string_of_bytes (bytes_of_string s) = s"
  by (simp add: string_of_bytes_def bytes_of_string_def map_idI)

lemma bytes_id: "bytes_of_string ''_id'' = [95, 105, 100]"
  by (simp add: bytes_of_string_def byte_of_char_def)

subsection \<open>Length headers\<close>

lemma length_le32 [simp]: "length (le32 w) = 4"
  by (simp add: le32_def)

lemma length_oid_bytes [simp]: "length (oid_bytes oid) = 12"
  by (cases oid) simp

lemma readi32_le32: "readi32 (le32 w @ r) = Some (w, r)"
proof -
  have "ucast (ucast w :: byte) OR push_bit 8 (ucast (ucast (drop_bit 8 w) :: byte))
          OR push_bit 16 (ucast (ucast (drop_bit 16 w) :: byte))
          OR push_bit 24 (ucast (ucast (drop_bit 24 w) :: byte)) = w" (is "?l = w")
  proof (rule bit_word_eqI)
    fix n :: nat
    assume "n < LENGTH(32)"
    then consider "n < 8" | "8 \<le> n \<and> n < 16" | "16 \<le> n \<and> n < 24" | "24 \<le> n \<and> n < 32"
      by fastforce
    then show "bit ?l n = bit w n"
      by cases (auto simp: bit_simps)
  qed
  then show ?thesis
    by (simp add: readi32_def le32_def)
qed

lemma sint_word_of_nat_32:
  assumes "n < 2 ^ 31"
  shows "sint (word_of_nat n :: int32) = int n"
proof -
  have "signed_take_bit 31 (int n) = int n"
    using assms by (intro signed_take_bit_int_eq_self) auto
  then show ?thesis
    by (simp add: signed_of_nat)
qed

lemma ReadLength_le32:
  assumes "n < 2 ^ 31"
  shows "ReadLength (le32 (word_of_nat n) @ r) = Some (int n, r)"
  using sint_word_of_nat_32 [OF assms]
  by (simp add: ReadLength_def readi32_le32 word_sless_alt)

subsection \<open>Building: a start and its end frame what lies between\<close>

lemma end_after_reserve:
  "AppendDocumentEnd (P @ [0, 0, 0, 0] @ body) (length P) = (P @ frame body, None)"
  by (simp add: AppendDocumentEnd_def UpdateLength_def frame_def Let_def add.commute)

lemma doc_block:
  "AppendDocumentEnd (snd (AppendDocumentElementStart arr k) @ body)
     (fst (AppendDocumentElementStart arr k))
   = (arr @ element TypeEmbeddedDocument k (frame body), None)"
  using end_after_reserve [of "arr @ [TypeEmbeddedDocument] @ bytes_of_string k @ [0]" body]
  by (simp add: AppendDocumentElementStart_def AppendDocumentStart_def ReserveLength_def
      AppendHeader_def element_def)

lemma array_block:
  "AppendArrayEnd (snd (AppendArrayStart []) @ body) (fst (AppendArrayStart []))
   = (frame body, None)"
  using end_after_reserve [of "[]" body]
  by (simp add: AppendArrayEnd_def AppendArrayStart_def ReserveLength_def)

lemma append_leaf:
  "AppendDocumentElement dst k d = dst @ element TypeEmbeddedDocument k d"
  "AppendInt32Element dst k i = dst @ element TypeInt32 k (le32 i)"
  "AppendInt64Element dst k j = dst @ element TypeInt64 k (le64 j)"
  by (simp_all add: AppendDocumentElement_def AppendInt32Element_def AppendInt64Element_def
      AppendHeader_def element_def appendi32_def appendi64_def)

subsection \<open>Reading an element that was built\<close>

lemma IndexByte_key:
  "0 \<notin> set k \<Longrightarrow> IndexByte (k @ 0 # r) 0 = Some (length k)"
  by (induction k) auto

lemma digit_not_nul: "d < 10 \<Longrightarrow> byte_of_char (digit d) \<noteq> 0"
proof
  assume d: "d < 10" and z: "byte_of_char (digit d) = 0"
  have "byte_of_char (digit d) = word_of_nat (48 + d)"
    using d by (simp add: byte_of_char_def digit_def)
  moreover have "unat (word_of_nat (48 + d) :: byte) = 48 + d"
    using d by (subst unat_of_nat) simp
  ultimately have "unat (byte_of_char (digit d)) = 48 + d"
    by (simp only:)
  with z show False by simp
qed

lemma Itoa_no_nul: "0 \<notin> set (bytes_of_string (Itoa n))"
proof (induction n rule: Itoa.induct)
  case (1 n)
  show ?case
  proof (cases "n < 10")
    case True
    then show ?thesis
      by (subst Itoa.simps) (simp add: bytes_of_string_def digit_not_nul)
  next
    case False
    have "n mod 10 < 10" by simp
    then have "byte_of_char (digit (n mod 10)) \<noteq> 0" by (rule digit_not_nul)
    with False "1.IH" show ?thesis
      by (subst Itoa.simps) (auto simp: bytes_of_string_def)
  qed
qed

lemma ReadLength_append:
  "ReadLength d = Some (l, r) \<Longrightarrow> ReadLength (d @ rest) = Some (l, r @ rest)"
  by (auto simp: ReadLength_def readi32_def split: list.splits if_splits)

lemma wf_document_length: "wf_document d \<Longrightarrow> 4 \<le> length d"
  by (auto simp: wf_document_def ReadLength_def readi32_def split: list.splits)

lemma ReadElement_doc:
  assumes "0 \<notin> set (bytes_of_string k)" and "wf_document d"
  shows "ReadElement (element TypeEmbeddedDocument k d @ rest)
           = Some (element TypeEmbeddedDocument k d, rest)"
proof -
  let ?kb = "bytes_of_string k"
  have src: "element TypeEmbeddedDocument k d @ rest = 3 # (?kb @ 0 # (d @ rest))"
    by (simp add: element_def)
  have idx: "IndexByte (?kb @ 0 # (d @ rest)) 0 = Some (length ?kb)"
    using assms(1) by (rule IndexByte_key)
  have dr: "drop (length ?kb + 2) (3 # (?kb @ 0 # (d @ rest))) = d @ rest"
    by simp
  have vl: "valueLength (d @ rest) TypeEmbeddedDocument = Some (int (length d))"
    using ReadLength_append [OF assms(2) [unfolded wf_document_def], of rest]
    by (simp add: valueLength_def)
  have tk: "take (nat (1 + int (length ?kb) + 1 + int (length d))) (3 # (?kb @ 0 # (d @ rest)))
              = 3 # (?kb @ 0 # d)"
    by (simp add: nat_add_distrib)
  have dp: "drop (nat (1 + int (length ?kb) + 1 + int (length d))) (3 # (?kb @ 0 # (d @ rest)))
              = rest"
    by (simp add: nat_add_distrib)
  show ?thesis
    unfolding src ReadElement_def
    by (simp only: list.case idx option.case dr vl Let_def tk dp)
       (simp add: element_def)
qed


lemma ElemValue_doc:
  assumes "0 \<notin> set (bytes_of_string k)" and "wf_document d"
  shows "ElemValue (element TypeEmbeddedDocument k d) = \<lparr>Type = TypeEmbeddedDocument, Data = d\<rparr>"
proof -
  let ?kb = "bytes_of_string k"
  have e: "element TypeEmbeddedDocument k d = 3 # (?kb @ 0 # d)"
    by (simp add: element_def)
  have idx: "IndexByte (?kb @ 0 # d) 0 = Some (length ?kb)"
    using assms(1) by (rule IndexByte_key)
  have dr: "drop (length ?kb + 2) (3 # (?kb @ 0 # d)) = d"
    by simp
  have rv: "readValue d TypeEmbeddedDocument = Some d"
    using assms(2) by (simp add: readValue_def valueLength_def wf_document_def)
  show ?thesis
    unfolding e ElemValue_def ValueErr_def
    by (simp only: list.case idx option.case dr rv sum.case)
qed

lemma DocumentOK_doc:
  assumes "wf_document d"
  shows "DocumentOK \<lparr>Type = TypeEmbeddedDocument, Data = d\<rparr> = Some d"
  using assms wf_document_length [OF assms]
  by (simp add: DocumentOK_def ReadDocument_def wf_document_def)

lemma length_element:
  "length (element t k v) = length (bytes_of_string k) + 2 + length v"
  by (simp add: element_def)

subsection \<open>Enumerating values\<close>

lemma values_loop_acc:
  "values_loop l r (acc1 @ acc2) =
     (acc1 @ fst (values_loop l r acc2), snd (values_loop l r acc2))"
proof (induction l r acc2 arbitrary: acc1 rule: values_loop.induct)
  case (1 l r vals)
  show ?case
  proof (cases "l > 1")
    case False
    then show ?thesis by (simp add: values_loop.simps)
  next
    case True
    show ?thesis
    proof (cases "ReadElement r")
      case None
      with True show ?thesis by (simp add: values_loop.simps)
    next
      case (Some p)
      obtain elem r' where p: "p = (elem, r')" by (cases p)
      have a: "values_loop l r (acc1 @ vals)
                 = values_loop (l - int (length elem)) r' (acc1 @ (vals @ [ElemValue elem]))"
        using True Some p by (subst values_loop.simps) simp
      have b: "values_loop l r vals
                 = values_loop (l - int (length elem)) r' (vals @ [ElemValue elem])"
        using True Some p by (subst values_loop.simps) simp
      show ?thesis
        unfolding a b using "1.IH" [OF True Some p [symmetric]] by simp
    qed
  qed
qed

lemma values_loop_documents:
  assumes "\<forall>d \<in> set ds. wf_document d"
  shows "values_loop (int (length (array_elements i (map VEncoded ds))) + 1)
           (array_elements i (map VEncoded ds) @ [0]) acc
         = (acc @ map (\<lambda>d. \<lparr>Type = TypeEmbeddedDocument, Data = d\<rparr>) ds, None)"
  using assms
proof (induction ds arbitrary: i acc)
  case Nil
  then show ?case by (simp add: values_loop.simps)
next
  case (Cons d ds)
  let ?e = "element TypeEmbeddedDocument (Itoa i) d"
  let ?rest = "array_elements (i + 1) (map VEncoded ds)"
  have wf: "wf_document d" using Cons.prems by simp
  have re: "ReadElement (?e @ ?rest @ [0]) = Some (?e, ?rest @ [0])"
    by (rule ReadElement_doc [OF Itoa_no_nul wf])
  have ev: "ElemValue ?e = \<lparr>Type = TypeEmbeddedDocument, Data = d\<rparr>"
    by (rule ElemValue_doc [OF Itoa_no_nul wf])
  have gt: "int (length (?e @ ?rest)) + 1 > 1"
    by (simp add: length_element)
  have "values_loop (int (length (?e @ ?rest)) + 1) ((?e @ ?rest) @ [0]) acc
          = values_loop (int (length ?rest) + 1) (?rest @ [0]) (acc @ [ElemValue ?e])"
    using gt re by (subst values_loop.simps) simp
  also have "\<dots> = ((acc @ [ElemValue ?e])
                        @ map (\<lambda>d. \<lparr>Type = TypeEmbeddedDocument, Data = d\<rparr>) ds, None)"
    using Cons.prems by (intro Cons.IH) simp
  finally show ?case by (simp add: ev)
qed

lemma Values_encode_array:
  assumes "\<forall>d \<in> set ds. wf_document d"
    and "length (encode_array (map VEncoded ds)) < 2 ^ 31"
  shows "Values (encode_array (map VEncoded ds))
           = (map (\<lambda>d. \<lparr>Type = TypeEmbeddedDocument, Data = d\<rparr>) ds, None)"
proof -
  let ?body = "array_elements 0 (map VEncoded ds)"
  have small: "length ?body + 5 < 2 ^ 31"
    using assms(2) by (simp add: encode_array_def frame_def)
  have "ReadLength (encode_array (map VEncoded ds)) = Some (int (length ?body + 5), ?body @ [0])"
    unfolding encode_array_def frame_def by (rule ReadLength_le32 [OF small])
  then have "Values (encode_array (map VEncoded ds))
               = values_loop (int (length ?body) + 1) (?body @ [0]) []"
    by (simp add: Values_def add.commute)
  also have "\<dots> = ([] @ map (\<lambda>d. \<lparr>Type = TypeEmbeddedDocument, Data = d\<rparr>) ds, None)"
    by (rule values_loop_documents [OF assms(1)])
  finally show ?thesis by simp
qed

section \<open>The dollar-key checks: first key with or without the operator sigil\<close>

lemma HasPrefix_dollar: "HasPrefix s ''$'' = (\<exists>r. s = CHR ''$'' # r)"
  by (cases s) (auto simp: HasPrefix_def)

text \<open>
  C7: \<open>ensureDollarKey\<close> returns an error exactly when the document has no first element
  (\<open>IndexErr doc 0\<close> fails) or the key of the first element does not begin with \<open>$\<close>;
  \<open>ensureNoDollarKey\<close> returns an error exactly when there is a first element and its key
  begins with \<open>$\<close>, and it succeeds on the empty document.
\<close>

theorem dollar_key_checks:
  "((\<exists>err. ensureDollarKey doc = Some err) =
      (isl (IndexErr doc 0) \<or>
       (\<exists>e. IndexErr doc 0 = Inr e \<and> (\<forall>r. Key e \<noteq> CHR ''$'' # r)))) \<and>
   ((\<exists>err. ensureNoDollarKey doc = Some err) =
      (\<exists>e r. IndexErr doc 0 = Inr e \<and> Key e = CHR ''$'' # r)) \<and>
   ensureNoDollarKey [5, 0, 0, 0, 0] = None"
proof (intro conjI)
  show "(\<exists>err. ensureDollarKey doc = Some err) =
      (isl (IndexErr doc 0) \<or>
       (\<exists>e. IndexErr doc 0 = Inr e \<and> (\<forall>r. Key e \<noteq> CHR ''$'' # r)))"
    by (cases "IndexErr doc 0") (auto simp: ensureDollarKey_def HasPrefix_dollar)
  show "(\<exists>err. ensureNoDollarKey doc = Some err) =
      (\<exists>e r. IndexErr doc 0 = Inr e \<and> Key e = CHR ''$'' # r)"
    by (cases "IndexErr doc 0") (auto simp: ensureNoDollarKey_def HasPrefix_dollar)
  show "ensureNoDollarKey [5, 0, 0, 0, 0] = None"
    by code_simp
qed

text \<open>
  The documents \<open>{name: {}}\<close> and \<open>{$set: {}}\<close>: the first is refused as an update, the
  second as a replacement.
\<close>

theorem dollar_key_checks_witness:
  "(\<exists>err. ensureDollarKey [16, 0, 0, 0, 3, 110, 97, 109, 101, 0, 5, 0, 0, 0, 0, 0] = Some err) \<and>
   (\<exists>err. ensureNoDollarKey [16, 0, 0, 0, 3, 36, 115, 101, 116, 0, 5, 0, 0, 0, 0, 0] = Some err)"
proof -
  have a: "IndexErr [16, 0, 0, 0, 3, 110, 97, 109, 101, 0, 5, 0, 0, 0, 0, 0] 0
             = Inr [3, 110, 97, 109, 101, 0, 5, 0, 0, 0, 0]"
    by code_simp
  have b: "Key [3, 110, 97, 109, 101, 0, 5, 0, 0, 0, 0] = ''name''"
    by code_simp
  have c: "IndexErr [16, 0, 0, 0, 3, 36, 115, 101, 116, 0, 5, 0, 0, 0, 0, 0] 0
             = Inr [3, 36, 115, 101, 116, 0, 5, 0, 0, 0, 0]"
    by code_simp
  have d: "Key [3, 36, 115, 101, 116, 0, 5, 0, 0, 0, 0] = ''$set''"
    by code_simp
  from dollar_key_checks [of "[16, 0, 0, 0, 3, 110, 97, 109, 101, 0, 5, 0, 0, 0, 0, 0]"] a b
  have "\<exists>err. ensureDollarKey [16, 0, 0, 0, 3, 110, 97, 109, 101, 0, 5, 0, 0, 0, 0, 0] = Some err"
    by simp
  moreover
  from dollar_key_checks [of "[16, 0, 0, 0, 3, 36, 115, 101, 116, 0, 5, 0, 0, 0, 0, 0]"] c d
  have "\<exists>err. ensureNoDollarKey [16, 0, 0, 0, 3, 36, 115, 101, 116, 0, 5, 0, 0, 0, 0, 0] = Some err"
    by simp
  ultimately show ?thesis by simp
qed

section \<open>marshal on a raw byte buffer\<close>

text \<open>
  C5 (as the code has it): a \<^verbatim>\<open>[]byte\<close> is converted to a \<^verbatim>\<open>bson.Raw\<close> and then encoded
  like every other value. The result for the byte buffer is the result for the Raw: what
  the encoder wrote, or the encoder's error as a \<open>MarshalError\<close>; it is the input bytes
  exactly when the encoder writes those bytes for the Raw.
\<close>

theorem marshal_bytes_as_raw:
  "marshal E (GBytes bs) bsonOpts registry = marshal E (GRaw bs) bsonOpts registry \<and>
   marshal E (GBytes bs) bsonOpts registry =
     (case Encode E (getEncoder bsonOpts
                      (Some (case registry of None \<Rightarrow> defaultRegistry E | Some r \<Rightarrow> r)))
             (GRaw bs) of
        Inl err \<Rightarrow> Inl (MarshalError (GRaw bs) err)
      | Inr buf \<Rightarrow> Inr buf) \<and>
   (marshal E (GBytes bs) bsonOpts registry = Inr bs) =
     (Encode E (getEncoder bsonOpts
                 (Some (case registry of None \<Rightarrow> defaultRegistry E | Some r \<Rightarrow> r)))
        (GRaw bs) = Inr bs)"
  by (auto simp: marshal_def Let_def split: sum.splits)

text \<open>The empty document, as a byte buffer, comes back as it is from the example encoder.\<close>

theorem marshal_bytes_as_raw_witness:
  "marshal exampleEnv (GBytes [5, 0, 0, 0, 0]) None None = Inr [5, 0, 0, 0, 0]"
proof -
  have "ReadLength [5, 0, 0, 0, 0] = Some (5, [0])"
    by code_simp
  with marshal_bytes_as_raw [of exampleEnv "[5, 0, 0, 0, 0]" None None]
  show ?thesis by (auto simp: exampleEnv_fields)
qed

text \<open>
  A non-nil byte buffer that is not a document: the encoder is asked, refuses, and
  \<open>marshal\<close> fails instead of returning the three bytes.
\<close>

theorem marshal_bytes_counterexample:
  "marshal exampleEnv (GBytes [1, 2, 3]) None None
     = Inl (MarshalError (GRaw [1, 2, 3]) ''invalid document length'')"
  by (simp add: marshal_def exampleEnv_fields ReadLength_def readi32_def)

section \<open>ensureID on a document that has an identifier\<close>

text \<open>
  C8: when the lookup of \<open>_id\<close> succeeds, \<open>ensureID\<close> returns the document as it is with
  the value the decoder gives for \<open>_id\<close>; when the decoder fails, it returns the
  unmarshaling error and no document.
\<close>

theorem ensureID_existing:
  assumes "LookupErr doc ''_id'' = Inr v"
  shows "ensureID E doc oid bsonOpts reg =
     (case DecodeID E doc bsonOpts (case reg of None \<Rightarrow> defaultRegistry E | Some r \<Rightarrow> r) of
        Inl err \<Rightarrow> Inl (ErrUnmarshalingDocument err)
      | Inr idv \<Rightarrow> Inr (doc, idv))"
  using assms by (simp add: ensureID_def)

text \<open>
  The document \<open>{_id: ObjectID(21 22 ... 2c)}\<close> comes back unchanged with the stored
  identifier, not the one supplied; with a string under \<open>_id\<close>, which the example decoder
  cannot read, the error comes back.
\<close>

theorem ensureID_existing_witness:
  "ensureID exampleEnv
     [22, 0, 0, 0, 7, 95, 105, 100, 0, 33, 34, 35, 36, 37, 38, 39, 40, 41, 42, 43, 44, 0]
     (ObjectID 9 9 9 9 9 9 9 9 9 9 9 9) None None
     = Inr ([22, 0, 0, 0, 7, 95, 105, 100, 0, 33, 34, 35, 36, 37, 38, 39, 40, 41, 42, 43, 44, 0],
            GObjectID (ObjectID 33 34 35 36 37 38 39 40 41 42 43 44)) \<and>
   ensureID exampleEnv [16, 0, 0, 0, 2, 95, 105, 100, 0, 2, 0, 0, 0, 97, 0, 0]
     (ObjectID 9 9 9 9 9 9 9 9 9 9 9 9) None None
     = Inl (ErrUnmarshalingDocument ''cannot decode'')"
proof -
  have a: "LookupErr
             [22, 0, 0, 0, 7, 95, 105, 100, 0, 33, 34, 35, 36, 37, 38, 39, 40, 41, 42, 43, 44, 0]
             ''_id''
           = Inr \<lparr>Type = TypeObjectID, Data = [33, 34, 35, 36, 37, 38, 39, 40, 41, 42, 43, 44]\<rparr>"
    by code_simp
  have b: "LookupErr [16, 0, 0, 0, 2, 95, 105, 100, 0, 2, 0, 0, 0, 97, 0, 0] ''_id''
           = Inr \<lparr>Type = TypeString, Data = [2, 0, 0, 0, 97, 0]\<rparr>"
    by code_simp
  show ?thesis
    using ensureID_existing [OF a, of exampleEnv "ObjectID 9 9 9 9 9 9 9 9 9 9 9 9" None None]
      ensureID_existing [OF b, of exampleEnv "ObjectID 9 9 9 9 9 9 9 9 9 9 9 9" None None]
    by (simp add: exampleEnv_fields a b)
qed

section \<open>marshalAggregatePipeline: the types that are one document\<close>

lemma marshal_error_cases:
  "marshal E v bo reg = Inl e \<Longrightarrow> e = ErrNilDocument \<or> (\<exists>w msg. e = MarshalError w msg)"
  by (auto simp: marshal_def Let_def split: if_splits sum.splits)

lemma pipeline_loop_error_cases:
  "pipeline_loop E bo reg valLen xs idx arr hos = Inl e \<Longrightarrow>
     e = ErrNilDocument \<or> (\<exists>w msg. e = MarshalError w msg)"
proof (induction xs arbitrary: idx arr hos)
  case Nil
  then show ?case by simp
next
  case (Cons x xs)
  then show ?case
    by (auto simp: Let_def split: sum.splits dest: marshal_error_cases)
qed

lemma empty_array: "fst (AppendArrayEnd [0, 0, 0, 0] 0) = [5, 0, 0, 0, 0]"
  by (simp add: AppendArrayEnd_def AppendDocumentEnd_def UpdateLength_def le32_def)

lemma generic_pipeline:
  "marshalAggregatePipeline E (GUser m None (Some xs) n) bo reg =
     (case pipeline_loop E bo reg (length xs) xs 0 [0, 0, 0, 0] False of
        Inl err \<Rightarrow> Inl err
      | Inr (arr, hos) \<Rightarrow> Inr (fst (AppendArrayEnd arr 0), hos))"
  by (simp add: marshalAggregatePipeline_def IsValid_def AppendArrayStart_def ReserveLength_def
      split: sum.splits prod.splits)

lemma bytes_pipeline:
  "marshalAggregatePipeline E (GBytes bs) bo reg =
     (case pipeline_loop E bo reg (length bs) (map GUint8 bs) 0 [0, 0, 0, 0] False of
        Inl err \<Rightarrow> Inl err
      | Inr (arr, hos) \<Rightarrow> Inr (fst (AppendArrayEnd arr 0), hos))"
  by (simp add: marshalAggregatePipeline_def IsValid_def AppendArrayStart_def ReserveLength_def
      split: sum.splits prod.splits)

lemma single_document_nonempty:
  "marshalAggregatePipeline E (GD (kv # kvs)) bo reg = Inl ErrPipelineSingleDocument"
  "marshalAggregatePipeline E (GRaw (b # bs)) bo reg = Inl ErrPipelineSingleDocument"
  "marshalAggregatePipeline E (GCoreDocument (b # bs)) bo reg = Inl ErrPipelineSingleDocument"
  by (simp_all add: marshalAggregatePipeline_def IsValid_def)

lemma single_document_empty:
  "marshalAggregatePipeline E (GD []) bo reg = Inr ([5, 0, 0, 0, 0], False)"
  "marshalAggregatePipeline E (GRaw []) bo reg = Inr ([5, 0, 0, 0, 0], False)"
  "marshalAggregatePipeline E (GCoreDocument []) bo reg = Inr ([5, 0, 0, 0, 0], False)"
  using empty_array
  by (auto simp: marshalAggregatePipeline_def IsValid_def AppendArrayStart_def
      ReserveLength_def split: prod.splits)

text \<open>
  C3 (as the code has it): a non-empty \<^verbatim>\<open>bson.D\<close>, \<^verbatim>\<open>bson.Raw\<close> or \<^verbatim>\<open>bsoncore.Document\<close>
  is refused as a single document; an empty one, and an empty \<^verbatim>\<open>[]byte\<close>, gives the empty
  array and no output stage. A non-empty \<^verbatim>\<open>[]byte\<close> is not among the refused types: it
  is handled as the sequence of its bytes, like any other slice, and never fails with the
  single-document error.
\<close>

theorem pipeline_single_document_shapes:
  "marshalAggregatePipeline E (GD (kv # kvs)) bo reg = Inl ErrPipelineSingleDocument \<and>
   marshalAggregatePipeline E (GRaw (b # bs)) bo reg = Inl ErrPipelineSingleDocument \<and>
   marshalAggregatePipeline E (GCoreDocument (b # bs)) bo reg = Inl ErrPipelineSingleDocument \<and>
   marshalAggregatePipeline E (GD []) bo reg = Inr ([5, 0, 0, 0, 0], False) \<and>
   marshalAggregatePipeline E (GRaw []) bo reg = Inr ([5, 0, 0, 0, 0], False) \<and>
   marshalAggregatePipeline E (GCoreDocument []) bo reg = Inr ([5, 0, 0, 0, 0], False) \<and>
   marshalAggregatePipeline E (GBytes []) bo reg = Inr ([5, 0, 0, 0, 0], False) \<and>
   marshalAggregatePipeline E (GBytes (b # bs)) bo reg \<noteq> Inl ErrPipelineSingleDocument \<and>
   marshalAggregatePipeline E (GBytes (b # bs)) bo reg =
     marshalAggregatePipeline E (GUser None None (Some (map GUint8 (b # bs))) n) bo reg"
proof -
  have 7: "marshalAggregatePipeline E (GBytes []) bo reg = Inr ([5, 0, 0, 0, 0], False)"
    using empty_array by (simp add: bytes_pipeline)
  have 8: "marshalAggregatePipeline E (GBytes (b # bs)) bo reg \<noteq> Inl ErrPipelineSingleDocument"
  proof
    assume "marshalAggregatePipeline E (GBytes (b # bs)) bo reg = Inl ErrPipelineSingleDocument"
    then have "pipeline_loop E bo reg (length (b # bs)) (map GUint8 (b # bs)) 0 [0, 0, 0, 0] False
                 = Inl ErrPipelineSingleDocument"
      unfolding bytes_pipeline
      by (simp del: pipeline_loop.simps split: sum.splits prod.splits)
    from pipeline_loop_error_cases [OF this] show False by simp
  qed
  have 9: "marshalAggregatePipeline E (GBytes (b # bs)) bo reg =
     marshalAggregatePipeline E (GUser None None (Some (map GUint8 (b # bs))) n) bo reg"
    unfolding bytes_pipeline generic_pipeline by simp
  from single_document_nonempty [of E] single_document_empty [of E] 7 8 9
  show ?thesis by blast
qed

text \<open>A \<^verbatim>\<open>bson.Raw\<close> holding the empty document is refused; an empty one is not.\<close>

theorem pipeline_single_document_shapes_witness:
  "marshalAggregatePipeline exampleEnv (GRaw [5, 0, 0, 0, 0]) None None
     = Inl ErrPipelineSingleDocument \<and>
   marshalAggregatePipeline exampleEnv (GRaw []) None None = Inr ([5, 0, 0, 0, 0], False)"
  using pipeline_single_document_shapes
          [of exampleEnv "(''a'', GNil)" "[]" None None 5 "[0, 0, 0, 0]" 0]
  by simp

text \<open>
  The one-byte buffer: its byte goes to \<open>marshal\<close>, the example encoder knows no encoding
  of a byte as a document, and the call fails with the marshal error, not with the
  single-document error.
\<close>

theorem pipeline_single_document_shapes_counterexample:
  "marshalAggregatePipeline exampleEnv (GBytes [5]) None None
     = Inl (MarshalError (GUint8 5) ''no encoder found'')"
  by (simp add: bytes_pipeline marshal_def exampleEnv_fields)

section \<open>countDocumentsAggregatePipeline builds the pipeline of the spec\<close>

lemma countDocumentsAggregatePipeline_encoded:
  "countDocumentsAggregatePipeline E filterv encOpts registry args =
     (case marshal E filterv encOpts registry of
        Inl err \<Rightarrow> Inl err
      | Inr filterDoc \<Rightarrow>
          Inr (encode_array (spec_countPipeline filterDoc
                 (case args of None \<Rightarrow> None | Some a \<Rightarrow> Skip a)
                 (case args of None \<Rightarrow> None | Some a \<Rightarrow> Limit a))))"
proof (cases "marshal E filterv encOpts registry")
  case (Inl e)
  then show ?thesis by (simp add: countDocumentsAggregatePipeline_def)
next
  case (Inr fd)
  note rules = split_def Let_def append_leaf doc_block array_block
    spec_countPipeline_def encode_array_def
  show ?thesis
  proof (cases args)
    case None
    show ?thesis
      unfolding countDocumentsAggregatePipeline_def Inr None
      by (simp add: rules)
  next
    case (Some a)
    show ?thesis
    proof (cases "Skip a")
      case sn: None
      show ?thesis
      proof (cases "Limit a")
        case ln: None
        show ?thesis
          unfolding countDocumentsAggregatePipeline_def Inr Some
          by (simp add: sn ln rules)
      next
        case ls: (Some l)
        show ?thesis
          unfolding countDocumentsAggregatePipeline_def Inr Some
          by (simp add: sn ls rules)
      qed
    next
      case ss: (Some s)
      show ?thesis
      proof (cases "Limit a")
        case ln: None
        show ?thesis
          unfolding countDocumentsAggregatePipeline_def Inr Some
          by (simp add: ss ln rules)
      next
        case ls: (Some l)
        show ?thesis
          unfolding countDocumentsAggregatePipeline_def Inr Some
          by (simp add: ss ls rules)
      qed
    qed
  qed
qed

text \<open>
  C9: when the filter cannot be marshalled the error is returned and nothing is built;
  otherwise the result is the array, with the indices 0, 1, 2, ... and no gap, of the
  stages \<open>$match\<close>, \<open>$skip\<close> if skip is present, \<open>$limit\<close> if limit is present, and
  \<open>$group\<close>: two stages with neither option, four with both.
\<close>

theorem countDocumentsAggregatePipeline_spec:
  "countDocumentsAggregatePipeline E filterv encOpts registry args =
     (case marshal E filterv encOpts registry of
        Inl err \<Rightarrow> Inl err
      | Inr filterDoc \<Rightarrow>
          Inr (encode_array (spec_countPipeline filterDoc
                 (case args of None \<Rightarrow> None | Some a \<Rightarrow> Skip a)
                 (case args of None \<Rightarrow> None | Some a \<Rightarrow> Limit a)))) \<and>
   length (spec_countPipeline filterDoc skip limit) =
     2 + (case skip of None \<Rightarrow> 0 | Some n \<Rightarrow> 1) + (case limit of None \<Rightarrow> 0 | Some n \<Rightarrow> 1)"
  using countDocumentsAggregatePipeline_encoded [of E filterv encOpts registry args]
  by (simp add: spec_countPipeline_def split: option.splits)

text \<open>
  The empty filter with skip 5 and limit 10 gives the four stages with the keys 0 to 3;
  without options it gives \<open>$match\<close> and \<open>$group\<close> with the keys 0 and 1; the nil filter
  gives the error of \<open>marshal\<close>. Read back, the four values of the first array are
  documents whose first keys are \<open>$match\<close>, \<open>$skip\<close>, \<open>$limit\<close> and \<open>$group\<close>.
\<close>

theorem countDocumentsAggregatePipeline_spec_witness:
  "countDocumentsAggregatePipeline exampleEnv (GRaw [5, 0, 0, 0, 0]) None None
     (Some \<lparr>Skip = Some 5, Limit = Some 10\<rparr>)
   = Inr [121, 0, 0, 0,
          3, 48, 0, 18, 0, 0, 0, 3, 36, 109, 97, 116, 99, 104, 0, 5, 0, 0, 0, 0, 0,
          3, 49, 0, 20, 0, 0, 0, 18, 36, 115, 107, 105, 112, 0, 5, 0, 0, 0, 0, 0, 0, 0, 0,
          3, 50, 0, 21, 0, 0, 0, 18, 36, 108, 105, 109, 105, 116, 0, 10, 0, 0, 0, 0, 0, 0, 0, 0,
          3, 51, 0, 45, 0, 0, 0, 3, 36, 103, 114, 111, 117, 112, 0, 32, 0, 0, 0,
            16, 95, 105, 100, 0, 1, 0, 0, 0,
            3, 110, 0, 15, 0, 0, 0, 16, 36, 115, 117, 109, 0, 1, 0, 0, 0, 0, 0, 0,
          0] \<and>
   countDocumentsAggregatePipeline exampleEnv (GRaw [5, 0, 0, 0, 0]) None None None
   = Inr [74, 0, 0, 0,
          3, 48, 0, 18, 0, 0, 0, 3, 36, 109, 97, 116, 99, 104, 0, 5, 0, 0, 0, 0, 0,
          3, 49, 0, 45, 0, 0, 0, 3, 36, 103, 114, 111, 117, 112, 0, 32, 0, 0, 0,
            16, 95, 105, 100, 0, 1, 0, 0, 0,
            3, 110, 0, 15, 0, 0, 0, 16, 36, 115, 117, 109, 0, 1, 0, 0, 0, 0, 0, 0,
          0] \<and>
   countDocumentsAggregatePipeline exampleEnv GNil None None None = Inl ErrNilDocument \<and>
   map (\<lambda>v. map_option (\<lambda>d. map_sum id Key (IndexErr d 0)) (DocumentOK v))
     (pipelineValues
        [121, 0, 0, 0,
          3, 48, 0, 18, 0, 0, 0, 3, 36, 109, 97, 116, 99, 104, 0, 5, 0, 0, 0, 0, 0,
          3, 49, 0, 20, 0, 0, 0, 18, 36, 115, 107, 105, 112, 0, 5, 0, 0, 0, 0, 0, 0, 0, 0,
          3, 50, 0, 21, 0, 0, 0, 18, 36, 108, 105, 109, 105, 116, 0, 10, 0, 0, 0, 0, 0, 0, 0, 0,
          3, 51, 0, 45, 0, 0, 0, 3, 36, 103, 114, 111, 117, 112, 0, 32, 0, 0, 0,
            16, 95, 105, 100, 0, 1, 0, 0, 0,
            3, 110, 0, 15, 0, 0, 0, 16, 36, 115, 117, 109, 0, 1, 0, 0, 0, 0, 0, 0,
          0])
   = [Some (Inr ''$match''), Some (Inr ''$skip''), Some (Inr ''$limit''),
      Some (Inr ''$group'')]"
proof -
  have k: "map (\<lambda>v. map_option (\<lambda>d. map_sum id Key (IndexErr d 0)) (DocumentOK v))
     (pipelineValues
        [121, 0, 0, 0,
          3, 48, 0, 18, 0, 0, 0, 3, 36, 109, 97, 116, 99, 104, 0, 5, 0, 0, 0, 0, 0,
          3, 49, 0, 20, 0, 0, 0, 18, 36, 115, 107, 105, 112, 0, 5, 0, 0, 0, 0, 0, 0, 0, 0,
          3, 50, 0, 21, 0, 0, 0, 18, 36, 108, 105, 109, 105, 116, 0, 10, 0, 0, 0, 0, 0, 0, 0, 0,
          3, 51, 0, 45, 0, 0, 0, 3, 36, 103, 114, 111, 117, 112, 0, 32, 0, 0, 0,
            16, 95, 105, 100, 0, 1, 0, 0, 0,
            3, 110, 0, 15, 0, 0, 0, 16, 36, 115, 117, 109, 0, 1, 0, 0, 0, 0, 0, 0,
          0])
   = [Some (Inr ''$match''), Some (Inr ''$skip''), Some (Inr ''$limit''),
      Some (Inr ''$group'')]"
    by code_simp
  have m: "marshal exampleEnv (GRaw [5, 0, 0, 0, 0]) None None = Inr [5, 0, 0, 0, 0]"
    by (simp add: marshal_def exampleEnv_fields ReadLength_def readi32_def word_sless_alt)
  have n: "marshal exampleEnv GNil None None = Inl ErrNilDocument"
    by (simp add: marshal_def)
  have a: "encode_array (spec_countPipeline [5, 0, 0, 0, 0] (Some 5) (Some 10))
   = [121, 0, 0, 0,
          3, 48, 0, 18, 0, 0, 0, 3, 36, 109, 97, 116, 99, 104, 0, 5, 0, 0, 0, 0, 0,
          3, 49, 0, 20, 0, 0, 0, 18, 36, 115, 107, 105, 112, 0, 5, 0, 0, 0, 0, 0, 0, 0, 0,
          3, 50, 0, 21, 0, 0, 0, 18, 36, 108, 105, 109, 105, 116, 0, 10, 0, 0, 0, 0, 0, 0, 0, 0,
          3, 51, 0, 45, 0, 0, 0, 3, 36, 103, 114, 111, 117, 112, 0, 32, 0, 0, 0,
            16, 95, 105, 100, 0, 1, 0, 0, 0,
            3, 110, 0, 15, 0, 0, 0, 16, 36, 115, 117, 109, 0, 1, 0, 0, 0, 0, 0, 0,
          0]"
    by code_simp
  have b: "encode_array (spec_countPipeline [5, 0, 0, 0, 0] None None)
   = [74, 0, 0, 0,
          3, 48, 0, 18, 0, 0, 0, 3, 36, 109, 97, 116, 99, 104, 0, 5, 0, 0, 0, 0, 0,
          3, 49, 0, 45, 0, 0, 0, 3, 36, 103, 114, 111, 117, 112, 0, 32, 0, 0, 0,
            16, 95, 105, 100, 0, 1, 0, 0, 0,
            3, 110, 0, 15, 0, 0, 0, 16, 36, 115, 117, 109, 0, 1, 0, 0, 0, 0, 0, 0,
          0]"
    by code_simp
  have 1: "countDocumentsAggregatePipeline exampleEnv (GRaw [5, 0, 0, 0, 0]) None None
     (Some \<lparr>Skip = Some 5, Limit = Some 10\<rparr>) = Inr (encode_array (spec_countPipeline [5, 0, 0, 0, 0] (Some 5) (Some 10)))"
    using countDocumentsAggregatePipeline_spec
            [of exampleEnv "GRaw [5, 0, 0, 0, 0]" None None
               "Some \<lparr>Skip = Some 5, Limit = Some 10\<rparr>", THEN conjunct1]
    by (simp add: m)
  have 2: "countDocumentsAggregatePipeline exampleEnv (GRaw [5, 0, 0, 0, 0]) None None None
      = Inr (encode_array (spec_countPipeline [5, 0, 0, 0, 0] None None))"
    using countDocumentsAggregatePipeline_spec
            [of exampleEnv "GRaw [5, 0, 0, 0, 0]" None None None, THEN conjunct1]
    by (simp add: m)
  have 3: "countDocumentsAggregatePipeline exampleEnv GNil None None None = Inl ErrNilDocument"
    using countDocumentsAggregatePipeline_spec [of exampleEnv GNil None None None, THEN conjunct1]
    by (simp add: n)
  show ?thesis
    unfolding 1 2 3 a b using k by simp
qed

section \<open>ensureID on a document without an identifier\<close>

lemma lookup_not_found_has_header:
  "LookupErr doc key = Inl ErrElementNotFound \<Longrightarrow> 4 \<le> length doc"
  by (auto simp: LookupErr_def ReadLength_def readi32_def split: option.splits list.splits)

lemma ensureID_bytes:
  assumes "LookupErr doc ''_id'' = Inl err" and "4 \<le> length doc"
  shows "ensureID E doc oid bsonOpts reg =
           Inr (le32 (word_of_nat (length doc + 17))
                  @ element TypeObjectID ''_id''
                      (oid_bytes (if IsZero oid then NewObjectID E else oid))
                  @ drop 4 doc,
                GObjectID (if IsZero oid then NewObjectID E else oid))"
  using assms
  by (simp add: ensureID_def ReserveLength_def AppendObjectIDElement_def AppendHeader_def
      UpdateLength_def Let_def element_def bytes_id add.commute)

lemma ReadElement_id:
  "ReadElement (element TypeObjectID ''_id'' (oid_bytes oid) @ rest)
     = Some (element TypeObjectID ''_id'' (oid_bytes oid), rest)"
  by (simp add: ReadElement_def element_def bytes_id valueLength_def Let_def)

lemma Key_id: "Key (element TypeObjectID ''_id'' v) = ''_id''"
proof -
  have "IndexByte (bytes_of_string ''_id'' @ 0 # v) 0 = Some 3"
    by (simp add: bytes_id)
  moreover have "take 3 (bytes_of_string ''_id'' @ 0 # v) = bytes_of_string ''_id''"
    by (simp add: bytes_id)
  ultimately show ?thesis
    unfolding Key_def element_def by (simp del: IndexByte.simps)
qed

lemma ElemValue_id:
  "ElemValue (element TypeObjectID ''_id'' (oid_bytes oid))
     = \<lparr>Type = TypeObjectID, Data = oid_bytes oid\<rparr>"
  by (simp add: ElemValue_def ValueErr_def element_def bytes_id readValue_def valueLength_def)

text \<open>
  C2: for a document in which the lookup of \<open>_id\<close> fails (and that has the four bytes of
  a length header), \<open>ensureID\<close> returns the new length header, then the ObjectID element
  \<open>_id\<close> that carries the supplied identifier, or the newly generated one when the
  supplied one is zero, then every byte of the input after its length header. The
  returned identifier is that one and is not zero, given that a new identifier never is.
  Read back, the first element of the result is the \<open>_id\<close> element, and the enumeration
  of the result gives the identifier followed by what the enumeration of the input gives.
\<close>

theorem ensureID_inserts:
  assumes "LookupErr doc ''_id'' = Inl err"
    and "4 \<le> length doc"
    and "\<not> IsZero (NewObjectID E)"
    and "oid' = (if IsZero oid then NewObjectID E else oid)"
    and "idElem = element TypeObjectID ''_id'' (oid_bytes oid')"
    and "newdoc = le32 (word_of_nat (length doc + 17)) @ idElem @ drop 4 doc"
  shows "ensureID E doc oid bsonOpts reg = Inr (newdoc, GObjectID oid') \<and>
         \<not> IsZero oid' \<and>
         length newdoc = length doc + 17 \<and>
         (length doc + 17 < 2 ^ 31 \<longrightarrow>
            IndexErr newdoc 0 = Inr idElem \<and>
            Key idElem = ''_id'' \<and>
            ElemValue idElem = \<lparr>Type = TypeObjectID, Data = oid_bytes oid'\<rparr> \<and>
            (ReadLength doc = Some (int (length doc), drop 4 doc) \<longrightarrow>
               Values newdoc =
                 (\<lparr>Type = TypeObjectID, Data = oid_bytes oid'\<rparr> # fst (Values doc),
                  snd (Values doc))))"
proof -
  have len_elem: "length idElem = 17"
    using assms(5) by (simp add: element_def bytes_id)
  have 1: "ensureID E doc oid bsonOpts reg = Inr (newdoc, GObjectID oid')"
    using ensureID_bytes [OF assms(1,2)] assms(4,5,6) by simp
  have 2: "\<not> IsZero oid'"
    using assms(3,4) by simp
  have 3: "length newdoc = length doc + 17"
    using assms(2,6) len_elem by simp
  have 4: "IndexErr newdoc 0 = Inr idElem" if small: "length doc + 17 < 2 ^ 31"
  proof -
    have "ReadLength newdoc = Some (int (length doc + 17), idElem @ drop 4 doc)"
      unfolding assms(6) by (rule ReadLength_le32 [OF small])
    moreover have "ReadElement (idElem @ drop 4 doc) = Some (idElem, drop 4 doc)"
      unfolding assms(5) by (rule ReadElement_id)
    ultimately show ?thesis
      using assms(2) by (simp add: IndexErr_def indexErr_loop.simps)
  qed
  have 5: "Key idElem = ''_id''"
    unfolding assms(5) by (rule Key_id)
  have 6: "ElemValue idElem = \<lparr>Type = TypeObjectID, Data = oid_bytes oid'\<rparr>"
    unfolding assms(5) by (rule ElemValue_id)
  have 7: "Values newdoc =
             (\<lparr>Type = TypeObjectID, Data = oid_bytes oid'\<rparr> # fst (Values doc),
              snd (Values doc))"
    if small: "length doc + 17 < 2 ^ 31"
      and wf: "ReadLength doc = Some (int (length doc), drop 4 doc)"
  proof -
    have a: "ReadLength newdoc = Some (int (length doc + 17), idElem @ drop 4 doc)"
      unfolding assms(6) by (rule ReadLength_le32 [OF small])
    have b: "ReadElement (idElem @ drop 4 doc) = Some (idElem, drop 4 doc)"
      unfolding assms(5) by (rule ReadElement_id)
    have "Values newdoc = values_loop (int (length doc + 17) - 4) (idElem @ drop 4 doc) []"
      using a by (simp add: Values_def)
    also have "\<dots> = values_loop (int (length doc) - 4) (drop 4 doc) ([ElemValue idElem] @ [])"
      using assms(2) b len_elem by (subst values_loop.simps) simp
    also have "\<dots> = ([ElemValue idElem] @ fst (values_loop (int (length doc) - 4) (drop 4 doc) []),
                       snd (values_loop (int (length doc) - 4) (drop 4 doc) []))"
      by (rule values_loop_acc)
    also have "values_loop (int (length doc) - 4) (drop 4 doc) [] = Values doc"
      using wf by (simp add: Values_def)
    finally show ?thesis by (simp add: 6)
  qed
  from 1 2 3 4 5 6 7 show ?thesis by blast
qed

text \<open>
  The document \<open>{x: {}}\<close> and no identifier supplied: the new identifier is put in
  front, the length goes from 13 to 30.
\<close>

theorem ensureID_inserts_witness:
  "ensureID exampleEnv [13, 0, 0, 0, 3, 120, 0, 5, 0, 0, 0, 0, 0] NilObjectID None None
     = Inr ([30, 0, 0, 0, 7, 95, 105, 100, 0, 1, 2, 3, 4, 5, 6, 7, 8, 9, 10, 11, 12,
             3, 120, 0, 5, 0, 0, 0, 0, 0],
            GObjectID (ObjectID 1 2 3 4 5 6 7 8 9 10 11 12)) \<and>
   IndexErr [30, 0, 0, 0, 7, 95, 105, 100, 0, 1, 2, 3, 4, 5, 6, 7, 8, 9, 10, 11, 12,
             3, 120, 0, 5, 0, 0, 0, 0, 0] 0
     = Inr [7, 95, 105, 100, 0, 1, 2, 3, 4, 5, 6, 7, 8, 9, 10, 11, 12] \<and>
   Values [30, 0, 0, 0, 7, 95, 105, 100, 0, 1, 2, 3, 4, 5, 6, 7, 8, 9, 10, 11, 12,
             3, 120, 0, 5, 0, 0, 0, 0, 0]
     = ([\<lparr>Type = TypeObjectID, Data = [1, 2, 3, 4, 5, 6, 7, 8, 9, 10, 11, 12]\<rparr>,
         \<lparr>Type = TypeEmbeddedDocument, Data = [5, 0, 0, 0, 0]\<rparr>], None)"
proof -
  have a: "LookupErr [13, 0, 0, 0, 3, 120, 0, 5, 0, 0, 0, 0, 0] ''_id'' = Inl ErrElementNotFound"
    by code_simp
  have b: "(4::nat) \<le> length [13 :: byte, 0, 0, 0, 3, 120, 0, 5, 0, 0, 0, 0, 0]"
    by simp
  have c: "\<not> IsZero (NewObjectID exampleEnv)"
    by (simp add: exampleEnv_fields IsZero_def NilObjectID_def)
  have d: "ReadLength [13, 0, 0, 0, 3, 120, 0, 5, 0, 0, 0, 0, 0]
             = Some (13, [3, 120, 0, 5, 0, 0, 0, 0, 0])"
    by code_simp
  have e: "Values [13, 0, 0, 0, 3, 120, 0, 5, 0, 0, 0, 0, 0]
             = ([\<lparr>Type = TypeEmbeddedDocument, Data = [5, 0, 0, 0, 0]\<rparr>], None)"
    by code_simp
  have f: "le32 30 = [30, 0, 0, 0]"
    by (simp add: le32_def)
  show ?thesis
    using ensureID_inserts [OF a b c refl refl refl, of NilObjectID None None]
    by (simp add: d e f exampleEnv_fields IsZero_def element_def bytes_id)
qed

section \<open>marshalUpdateValue on a sequence\<close>

lemma update_loop_all_ok:
  assumes "\<forall>x \<in> set xs. \<not> isl (normalizeChecked E bo reg chk x)"
  shows "update_loop E bo reg chk xs idx arr =
           Inr (arr @ array_elements idx
                  (map (\<lambda>x. VEncoded (projr (normalizeChecked E bo reg chk x))) xs))"
  using assms
proof (induction xs arbitrary: idx arr)
  case Nil
  then show ?case by simp
next
  case (Cons x xs)
  from Cons.prems obtain d where d: "marshal E x bo reg = Inr d" "chk d = None"
    by (auto simp: normalizeChecked_def split: sum.splits option.splits)
  have n: "normalizeChecked E bo reg chk x = Inr d"
    using d by (simp add: normalizeChecked_def)
  show ?case
    using Cons.IH [of "idx + 1" "AppendDocumentElement arr (Itoa idx) d"] Cons.prems d n
    by (simp add: append_leaf)
qed

lemma update_loop_first_failure:
  assumes "\<forall>y \<in> set pre. \<not> isl (normalizeChecked E bo reg chk y)"
    and "normalizeChecked E bo reg chk x = Inl e"
  shows "update_loop E bo reg chk (pre @ x # post) idx arr = Inl e"
  using assms
proof (induction pre arbitrary: idx arr)
  case Nil
  then show ?case
    by (auto simp: normalizeChecked_def split: sum.splits option.splits)
next
  case (Cons y pre)
  from Cons.prems(1) obtain d where d: "marshal E y bo reg = Inr d" "chk d = None"
    by (auto simp: normalizeChecked_def split: sum.splits option.splits)
  show ?case
    using Cons.IH [of "idx + 1" "AppendDocumentElement arr (Itoa idx) d"] Cons.prems d
    by simp
qed

lemma update_sequence_unfold:
  "marshalUpdateValue E (GUser None None (Some xs) n) bo reg dka =
     (case update_loop E bo reg (if dka then ensureDollarKey else ensureNoDollarKey) xs 0
             (snd (AppendArrayStart [])) of
        Inl err \<Rightarrow> (\<lparr>Type = TypeArray, Data = []\<rparr>, Some err)
      | Inr arr \<Rightarrow>
          (\<lparr>Type = TypeArray, Data = fst (AppendArrayEnd arr (fst (AppendArrayStart [])))\<rparr>, None))"
  by (simp add: marshalUpdateValue_def IsValid_def split_def Let_def split: sum.splits)

text \<open>
  C6: for an update that is a slice or array (of a type without marshal methods that is
  not one of the document types), with \<open>check\<close> the selected dollar-key check: when every
  element can be marshalled and passes the check, the result is the array value whose
  bytes are the array of these documents, with the keys 0, 1, 2, ... in order; and when
  an element at any place fails to marshal or fails the check while all elements before
  it pass, the result is that element's error (and the array value without bytes). A
  \<^verbatim>\<open>bsoncore.Array\<close> is such a slice, of its bytes.
\<close>

theorem update_sequence:
  assumes "check = (if dollarKeysAllowed then ensureDollarKey else ensureNoDollarKey)"
  shows
  "((\<forall>x \<in> set xs. \<not> isl (normalizeChecked E bo reg check x)) \<longrightarrow>
      marshalUpdateValue E (GUser None None (Some xs) n) bo reg dollarKeysAllowed =
        (\<lparr>Type = TypeArray,
          Data = encode_array
                   (map (\<lambda>x. VEncoded (projr (normalizeChecked E bo reg check x))) xs)\<rparr>,
         None)) \<and>
   (\<forall>pre x post e.
      xs = pre @ x # post \<and>
      (\<forall>y \<in> set pre. \<not> isl (normalizeChecked E bo reg check y)) \<and>
      normalizeChecked E bo reg check x = Inl e \<longrightarrow>
      marshalUpdateValue E (GUser None None (Some xs) n) bo reg dollarKeysAllowed =
        (\<lparr>Type = TypeArray, Data = []\<rparr>, Some e)) \<and>
   marshalUpdateValue E (GCoreArray bs) bo reg dollarKeysAllowed =
     marshalUpdateValue E (GUser None None (Some (map GUint8 bs)) n) bo reg dollarKeysAllowed"
proof (intro conjI impI allI)
  assume ok: "\<forall>x \<in> set xs. \<not> isl (normalizeChecked E bo reg check x)"
  show "marshalUpdateValue E (GUser None None (Some xs) n) bo reg dollarKeysAllowed =
        (\<lparr>Type = TypeArray,
          Data = encode_array
                   (map (\<lambda>x. VEncoded (projr (normalizeChecked E bo reg check x))) xs)\<rparr>,
         None)"
    unfolding update_sequence_unfold assms [symmetric]
      update_loop_all_ok [OF ok]
    by (simp add: array_block encode_array_def)
next
  fix pre x post e
  assume a: "xs = pre @ x # post \<and>
      (\<forall>y \<in> set pre. \<not> isl (normalizeChecked E bo reg check y)) \<and>
      normalizeChecked E bo reg check x = Inl e"
  then have "update_loop E bo reg check xs 0 (snd (AppendArrayStart [])) = Inl e"
    using update_loop_first_failure [of pre E bo reg check x e post] by simp
  then show "marshalUpdateValue E (GUser None None (Some xs) n) bo reg dollarKeysAllowed =
        (\<lparr>Type = TypeArray, Data = []\<rparr>, Some e)"
    unfolding update_sequence_unfold assms [symmetric] by simp
next
  show "marshalUpdateValue E (GCoreArray bs) bo reg dollarKeysAllowed =
     marshalUpdateValue E (GUser None None (Some (map GUint8 bs)) n) bo reg dollarKeysAllowed"
    by (simp add: marshalUpdateValue_def IsValid_def)
qed

text \<open>
  Two operator documents \<open>{$set: {}}\<close> give the array of both. With \<open>{name: {}}\<close>
  between two operator documents, the check of the second element fails the call.
\<close>

theorem update_sequence_witness:
  "marshalUpdateValue exampleEnv
     (GUser None None
        (Some [GRaw [16, 0, 0, 0, 3, 36, 115, 101, 116, 0, 5, 0, 0, 0, 0, 0],
               GRaw [16, 0, 0, 0, 3, 36, 115, 101, 116, 0, 5, 0, 0, 0, 0, 0]]) 0)
     None None True
   = (\<lparr>Type = TypeArray,
        Data = [43, 0, 0, 0,
                3, 48, 0, 16, 0, 0, 0, 3, 36, 115, 101, 116, 0, 5, 0, 0, 0, 0, 0,
                3, 49, 0, 16, 0, 0, 0, 3, 36, 115, 101, 116, 0, 5, 0, 0, 0, 0, 0,
                0]\<rparr>, None) \<and>
   marshalUpdateValue exampleEnv
     (GUser None None
        (Some [GRaw [16, 0, 0, 0, 3, 36, 115, 101, 116, 0, 5, 0, 0, 0, 0, 0],
               GRaw [16, 0, 0, 0, 3, 110, 97, 109, 101, 0, 5, 0, 0, 0, 0, 0],
               GRaw [16, 0, 0, 0, 3, 36, 115, 101, 116, 0, 5, 0, 0, 0, 0, 0]]) 0)
     None None True
   = (\<lparr>Type = TypeArray, Data = []\<rparr>, Some ErrUpdateNoDollarKey)"
proof -
  let ?set = "[16, 0, 0, 0, 3, 36, 115, 101, 116, 0, 5, 0, 0, 0, 0, 0] :: bytes"
  let ?name = "[16, 0, 0, 0, 3, 110, 97, 109, 101, 0, 5, 0, 0, 0, 0, 0] :: bytes"
  have s: "normalizeChecked exampleEnv None None ensureDollarKey (GRaw ?set) = Inr ?set"
    by code_simp
  have n: "normalizeChecked exampleEnv None None ensureDollarKey (GRaw ?name)
             = Inl ErrUpdateNoDollarKey"
    by code_simp
  have a: "encode_array [VEncoded ?set, VEncoded ?set]
             = [43, 0, 0, 0,
                3, 48, 0, 16, 0, 0, 0, 3, 36, 115, 101, 116, 0, 5, 0, 0, 0, 0, 0,
                3, 49, 0, 16, 0, 0, 0, 3, 36, 115, 101, 116, 0, 5, 0, 0, 0, 0, 0,
                0]"
    by code_simp
  note us = update_sequence [OF refl, where dollarKeysAllowed = True and E = exampleEnv
      and bo = None and reg = None and n = 0]
  have 1: "marshalUpdateValue exampleEnv (GUser None None (Some [GRaw ?set, GRaw ?set]) 0)
             None None True
           = (\<lparr>Type = TypeArray, Data = encode_array [VEncoded ?set, VEncoded ?set]\<rparr>, None)"
    using us [where xs = "[GRaw ?set, GRaw ?set]", THEN conjunct1] by (simp add: s)
  have 2: "marshalUpdateValue exampleEnv
             (GUser None None (Some [GRaw ?set, GRaw ?name, GRaw ?set]) 0) None None True
           = (\<lparr>Type = TypeArray, Data = []\<rparr>, Some ErrUpdateNoDollarKey)"
    using us [where xs = "[GRaw ?set, GRaw ?name, GRaw ?set]", THEN conjunct2, THEN conjunct1,
        rule_format,
        of "[GRaw ?set]" "GRaw ?name" "[GRaw ?set]" ErrUpdateNoDollarKey]
    by (simp add: s n)
  show ?thesis
    unfolding 1 2 a by simp
qed

section \<open>marshalAggregatePipeline against the normalizer of the specification\<close>

text \<open>
  The test on the last value, as the code writes it twice (for a ValueMarshaler and for an
  encoded array), is \<open>spec_hasOutputStage\<close>.
\<close>

lemma listed_hasOutputStage:
  "(if length vs > 0 then
      (case DocumentOK (vs ! (length vs - 1)) of
         Some finalDoc \<Rightarrow>
           (case IndexErr finalDoc 0 of
              Inr elem \<Rightarrow> Key elem = ''$out'' \<or> Key elem = ''$merge''
            | Inl _ \<Rightarrow> False)
       | None \<Rightarrow> False)
    else False) = spec_hasOutputStage vs"
  by (auto simp: spec_hasOutputStage_def isOutputStage_def last_conv_nth
      split: option.splits sum.splits)

lemma pipeline_ValueMarshaler_result:
  "marshalAggregatePipeline E (GUser m (Some (btype, val, err)) els n) bo reg =
     (case err of
        Some e \<Rightarrow> Inl (UserError e)
      | None \<Rightarrow>
          if btype \<noteq> TypeArray then Inl (ErrPipelineValueMarshalerType btype)
          else Inr (val, spec_hasOutputStage (pipelineValues val)))"
  using listed_hasOutputStage [of "fst (Values val)"]
  by (simp add: marshalAggregatePipeline_def Let_def split_def pipelineValues_def
      split: option.splits)

lemma pipeline_CoreArray_result:
  "marshalAggregatePipeline E (GCoreArray t) bo reg =
     (case Validate E t of
        Some e \<Rightarrow> Inl (ValidateError e)
      | None \<Rightarrow>
          (case snd (Values t) of
             Some err \<Rightarrow> Inl err
           | None \<Rightarrow> Inr (t, spec_hasOutputStage (pipelineValues t))))"
proof (cases "Values t")
  case (Pair vs e)
  show ?thesis
    using listed_hasOutputStage [of vs]
    by (auto simp: marshalAggregatePipeline_def IsValid_def Let_def Pair pipelineValues_def
        spec_hasOutputStage_def split: option.splits)
qed

lemma pipeline_loop_marshal_all:
  assumes "idx + length xs = valLen"
  shows "pipeline_loop E bo reg valLen xs idx arr hos =
           (case marshal_all E bo reg xs of
              Inl err \<Rightarrow> Inl err
            | Inr docs \<Rightarrow>
                Inr (arr @ array_elements idx (map VEncoded docs),
                     if docs = [] then hos else (isOutputStage (last docs) \<or> hos)))"
  using assms
proof (induction xs arbitrary: idx arr hos)
  case Nil
  then show ?case by simp
next
  case (Cons x xs)
  show ?case
  proof (cases "marshal E x bo reg")
    case (Inl e)
    then show ?thesis by simp
  next
    case (Inr d)
    define hos1 where "hos1 = (if xs = [] then (isOutputStage d \<or> hos) else hos)"
    have last_idx: "(int idx = int valLen - 1) = (xs = [])"
      using Cons.prems by auto
    have step: "pipeline_loop E bo reg valLen (x # xs) idx arr hos
                  = pipeline_loop E bo reg valLen xs (idx + 1)
                      (arr @ element TypeEmbeddedDocument (Itoa idx) d) hos1"
      unfolding hos1_def
      by (auto simp: Inr last_idx Let_def append_leaf isOutputStage_def split: sum.splits)
    have ih: "pipeline_loop E bo reg valLen xs (idx + 1)
                (arr @ element TypeEmbeddedDocument (Itoa idx) d) hos1 =
           (case marshal_all E bo reg xs of
              Inl err \<Rightarrow> Inl err
            | Inr docs \<Rightarrow>
                Inr ((arr @ element TypeEmbeddedDocument (Itoa idx) d)
                       @ array_elements (idx + 1) (map VEncoded docs),
                     if docs = [] then hos1 else (isOutputStage (last docs) \<or> hos1)))"
      using Cons.prems by (intro Cons.IH) simp
    have len: "\<And>docs. marshal_all E bo reg xs = Inr docs \<Longrightarrow> (docs = []) = (xs = [])"
      by (cases xs) (auto split: sum.splits)
    show ?thesis
      unfolding step ih
      by (cases "marshal_all E bo reg xs") (auto simp: Inr hos1_def dest: len)
  qed
qed

lemma pipeline_generic_result:
  assumes "(if IsValid pipeline then reflect_elems pipeline else None) = Some stages"
    and "\<not> (isSingleDocument pipeline \<and> stages \<noteq> [])"
    and "\<forall>m vm els n. pipeline \<noteq> GUser m (Some vm) els n"
    and "\<forall>t. pipeline \<noteq> GCoreArray t"
  shows "marshalAggregatePipeline E pipeline bo reg =
           (case marshal_all E bo reg stages of
              Inl err \<Rightarrow> Inl err
            | Inr docs \<Rightarrow>
                Inr (encode_array (map VEncoded docs),
                     docs \<noteq> [] \<and> isOutputStage (last docs)))"
proof -
  have loop: "pipeline_loop E bo reg (length stages) stages 0 [0, 0, 0, 0] False =
           (case marshal_all E bo reg stages of
              Inl err \<Rightarrow> Inl err
            | Inr docs \<Rightarrow>
                Inr ([0, 0, 0, 0] @ array_elements 0 (map VEncoded docs),
                     if docs = [] then False else (isOutputStage (last docs) \<or> False)))"
    by (rule pipeline_loop_marshal_all) simp
  have fin: "\<And>body. fst (AppendArrayEnd ([0, 0, 0, 0] @ body) 0) = frame body"
    using end_after_reserve [of "[]"] by (simp add: AppendArrayEnd_def)
  have gen: "(let (aidx, arr) = AppendArrayStart []
              in case pipeline_loop E bo reg (length stages) stages 0 arr False of
                   Inl err \<Rightarrow> Inl err
                 | Inr (arr, hasOutputStage) \<Rightarrow>
                     (let (arr, _) = AppendArrayEnd arr aidx
                      in Inr (arr, hasOutputStage)))
             = (case marshal_all E bo reg stages of
              Inl err \<Rightarrow> Inl err
            | Inr docs \<Rightarrow>
                Inr (encode_array (map VEncoded docs),
                     docs \<noteq> [] \<and> isOutputStage (last docs)))"
    using fin
    by (cases "marshal_all E bo reg stages")
       (auto simp: AppendArrayStart_def ReserveLength_def loop split_def encode_array_def)
  show ?thesis
  proof (cases pipeline)
    case (GUser m vm els n)
    with assms(3) have vm: "vm = None" by (cases vm) auto
    show ?thesis
      using assms(1,2) gen unfolding GUser vm marshalAggregatePipeline_def
      by (simp add: IsValid_def Let_def)
  qed (use assms gen in \<open>auto simp: marshalAggregatePipeline_def IsValid_def Let_def\<close>)
qed


lemma normalizePipeline_refines:
  "marshalAggregatePipeline E pipeline bo reg = spec_normalizePipeline E pipeline bo reg"
proof (cases "\<exists>m vm els n. pipeline = GUser m (Some vm) els n")
  case True
  then obtain m btype val err els n where p: "pipeline = GUser m (Some (btype, val, err)) els n"
    by (metis prod_cases3)
  show ?thesis
    unfolding p pipeline_ValueMarshaler_result by (simp add: spec_normalizePipeline_def)
next
  case noVM: False
  show ?thesis
  proof (cases "\<exists>t. pipeline = GCoreArray t")
    case True
    then obtain t where p: "pipeline = GCoreArray t" by blast
    show ?thesis
      unfolding p pipeline_CoreArray_result by (simp add: spec_normalizePipeline_def)
  next
    case noArr: False
    have spec: "spec_normalizePipeline E pipeline bo reg =
          (case (if IsValid pipeline then reflect_elems pipeline else None) of
             None \<Rightarrow> Inl ErrPipelineNotSliceOrArray
           | Some stages \<Rightarrow>
               if isSingleDocument pipeline \<and> stages \<noteq> [] then Inl ErrPipelineSingleDocument
               else
                 (case marshal_all E bo reg stages of
                    Inl err \<Rightarrow> Inl err
                  | Inr docs \<Rightarrow>
                      Inr (encode_array (map VEncoded docs),
                           docs \<noteq> [] \<and> isOutputStage (last docs))))"
      using noVM noArr
      by (cases pipeline) (auto simp: spec_normalizePipeline_def split: option.splits)
    show ?thesis
    proof (cases "if IsValid pipeline then reflect_elems pipeline else None")
      case None
      then have "marshalAggregatePipeline E pipeline bo reg = Inl ErrPipelineNotSliceOrArray"
        using noVM
        by (cases pipeline) (auto simp: marshalAggregatePipeline_def split: option.splits)
      then show ?thesis by (simp add: spec None)
    next
      case (Some stages)
      show ?thesis
      proof (cases "isSingleDocument pipeline \<and> stages \<noteq> []")
        case True
        then have "marshalAggregatePipeline E pipeline bo reg = Inl ErrPipelineSingleDocument"
          using Some
          by (cases pipeline)
             (auto simp: marshalAggregatePipeline_def IsValid_def Let_def split: if_splits)
        then show ?thesis by (simp add: spec Some True)
      next
        case False
        have "marshalAggregatePipeline E pipeline bo reg =
           (case marshal_all E bo reg stages of
              Inl err \<Rightarrow> Inl err
            | Inr docs \<Rightarrow>
                Inr (encode_array (map VEncoded docs),
                     docs \<noteq> [] \<and> isOutputStage (last docs)))"
          using noVM noArr by (intro pipeline_generic_result [OF Some False]) auto
        then show ?thesis using False by (simp add: spec Some)
      qed
    qed
  qed
qed

lemma marshal_Inr_encoded:
  "marshal E x bo reg = Inr d \<Longrightarrow> \<exists>enc v. Encode E enc v = Inr d"
  by (auto simp: marshal_def Let_def split: if_splits sum.splits)

lemma marshal_all_encoded:
  "marshal_all E bo reg xs = Inr docs \<Longrightarrow> d \<in> set docs \<Longrightarrow> \<exists>enc v. Encode E enc v = Inr d"
proof (induction xs arbitrary: docs)
  case Nil
  then show ?case by simp
next
  case (Cons x xs)
  then show ?case
    by (auto split: sum.splits dest: marshal_Inr_encoded)
qed

lemma spec_hasOutputStage_documents:
  assumes "\<forall>d \<in> set docs. wf_document d"
  shows "spec_hasOutputStage (map (\<lambda>d. \<lparr>Type = TypeEmbeddedDocument, Data = d\<rparr>) docs)
           = (docs \<noteq> [] \<and> isOutputStage (last docs))"
proof (cases "docs = []")
  case True
  then show ?thesis by (simp add: spec_hasOutputStage_def)
next
  case False
  then have "wf_document (last docs)" using assms by simp
  then show ?thesis
    using False by (simp add: spec_hasOutputStage_def last_map DocumentOK_doc)
qed

lemma spec_normalizePipeline_read_back:
  assumes res: "spec_normalizePipeline E pipeline bo reg = Inr (arr, hos)"
    and enc: "\<forall>enc v d. Encode E enc v = Inr d \<longrightarrow> wf_document d"
    and small: "length arr < 2 ^ 31"
  shows "hos = spec_hasOutputStage (pipelineValues arr)"
proof (cases "(\<exists>m vm els n. pipeline = GUser m (Some vm) els n) \<or> (\<exists>t. pipeline = GCoreArray t)")
  case True
  with res show ?thesis
    by (auto simp: spec_normalizePipeline_def split: option.splits if_splits)
next
  case False
  then have "spec_normalizePipeline E pipeline bo reg =
          (case (if IsValid pipeline then reflect_elems pipeline else None) of
             None \<Rightarrow> Inl ErrPipelineNotSliceOrArray
           | Some stages \<Rightarrow>
               if isSingleDocument pipeline \<and> stages \<noteq> [] then Inl ErrPipelineSingleDocument
               else
                 (case marshal_all E bo reg stages of
                    Inl err \<Rightarrow> Inl err
                  | Inr docs \<Rightarrow>
                      Inr (encode_array (map VEncoded docs),
                           docs \<noteq> [] \<and> isOutputStage (last docs))))"
    by (cases pipeline) (auto simp: spec_normalizePipeline_def split: option.splits)
  with res obtain stages docs where
    m: "marshal_all E bo reg stages = Inr docs"
    and arr: "arr = encode_array (map VEncoded docs)"
    and hos: "hos = (docs \<noteq> [] \<and> isOutputStage (last docs))"
    by (auto split: option.splits if_splits sum.splits)
  have wf: "\<forall>d \<in> set docs. wf_document d"
    using marshal_all_encoded [OF m] enc by blast
  have "Values arr = (map (\<lambda>d. \<lparr>Type = TypeEmbeddedDocument, Data = d\<rparr>) docs, None)"
    unfolding arr by (rule Values_encode_array [OF wf small [unfolded arr]])
  then show ?thesis
    by (simp add: pipelineValues_def hos spec_hasOutputStage_documents [OF wf])
qed

text \<open>
  C1: \<open>marshalAggregatePipeline\<close> is the normalizer of the specification, on every input:
  the same error or the same array, and the same flag. For a sequence of stages the flag
  is true exactly when there is a stage and the document the last stage is normalized
  to has \<open>$out\<close> or \<open>$merge\<close> as its first key; for a ValueMarshaler and for an encoded
  array it is true exactly when a value is enumerated and the last one is such a
  document. On every input shape the flag can be read back from the returned array: it
  is true exactly when the values of the array are not empty, the last one is a
  document, and the first key of that document is \<open>$out\<close> or \<open>$merge\<close>; with no values
  it is false. For the read-back the encoder is taken to write documents whose length
  header is their size, and the array to be shorter than 2 GiB.
\<close>

theorem hasOutputStage_spec:
  "marshalAggregatePipeline E pipeline bo reg = spec_normalizePipeline E pipeline bo reg \<and>
   (marshalAggregatePipeline E pipeline bo reg = Inr (arr, hos) \<and>
    (\<forall>enc v d. Encode E enc v = Inr d \<longrightarrow> wf_document d) \<and>
    length arr < 2 ^ 31 \<longrightarrow>
      hos = spec_hasOutputStage (pipelineValues arr) \<and>
      (pipelineValues arr = [] \<longrightarrow> \<not> hos))"
  using spec_normalizePipeline_read_back [of E pipeline bo reg arr hos]
  by (auto simp: normalizePipeline_refines spec_hasOutputStage_def)

text \<open>
  The pipelines \<open>[{$match: {x: 1}}, {$out: "coll"}]\<close> and \<open>[{$match: {x: 1}}]\<close>, given as
  slices of encoded documents.
\<close>

theorem hasOutputStage_spec_witness:
  "marshalAggregatePipeline exampleEnv
     (GUser None None
        (Some [GRaw [25, 0, 0, 0, 3, 36, 109, 97, 116, 99, 104, 0,
                     12, 0, 0, 0, 16, 120, 0, 1, 0, 0, 0, 0, 0],
               GRaw [20, 0, 0, 0, 2, 36, 111, 117, 116, 0,
                     5, 0, 0, 0, 99, 111, 108, 108, 0, 0]]) 0) None None
   = Inr ([56, 0, 0, 0,
           3, 48, 0, 25, 0, 0, 0, 3, 36, 109, 97, 116, 99, 104, 0,
             12, 0, 0, 0, 16, 120, 0, 1, 0, 0, 0, 0, 0,
           3, 49, 0, 20, 0, 0, 0, 2, 36, 111, 117, 116, 0,
             5, 0, 0, 0, 99, 111, 108, 108, 0, 0,
           0], True) \<and>
   spec_normalizePipeline exampleEnv
     (GUser None None
        (Some [GRaw [25, 0, 0, 0, 3, 36, 109, 97, 116, 99, 104, 0,
                     12, 0, 0, 0, 16, 120, 0, 1, 0, 0, 0, 0, 0],
               GRaw [20, 0, 0, 0, 2, 36, 111, 117, 116, 0,
                     5, 0, 0, 0, 99, 111, 108, 108, 0, 0]]) 0) None None
   = Inr ([56, 0, 0, 0,
           3, 48, 0, 25, 0, 0, 0, 3, 36, 109, 97, 116, 99, 104, 0,
             12, 0, 0, 0, 16, 120, 0, 1, 0, 0, 0, 0, 0,
           3, 49, 0, 20, 0, 0, 0, 2, 36, 111, 117, 116, 0,
             5, 0, 0, 0, 99, 111, 108, 108, 0, 0,
           0], True) \<and>
   spec_hasOutputStage (pipelineValues
          [56, 0, 0, 0,
           3, 48, 0, 25, 0, 0, 0, 3, 36, 109, 97, 116, 99, 104, 0,
             12, 0, 0, 0, 16, 120, 0, 1, 0, 0, 0, 0, 0,
           3, 49, 0, 20, 0, 0, 0, 2, 36, 111, 117, 116, 0,
             5, 0, 0, 0, 99, 111, 108, 108, 0, 0,
           0]) \<and>
   marshalAggregatePipeline exampleEnv
     (GUser None None
        (Some [GRaw [25, 0, 0, 0, 3, 36, 109, 97, 116, 99, 104, 0,
                     12, 0, 0, 0, 16, 120, 0, 1, 0, 0, 0, 0, 0]]) 0) None None
   = Inr ([33, 0, 0, 0,
           3, 48, 0, 25, 0, 0, 0, 3, 36, 109, 97, 116, 99, 104, 0,
             12, 0, 0, 0, 16, 120, 0, 1, 0, 0, 0, 0, 0,
           0], False) \<and>
   spec_normalizePipeline exampleEnv
     (GUser None None
        (Some [GRaw [25, 0, 0, 0, 3, 36, 109, 97, 116, 99, 104, 0,
                     12, 0, 0, 0, 16, 120, 0, 1, 0, 0, 0, 0, 0]]) 0) None None
   = Inr ([33, 0, 0, 0,
           3, 48, 0, 25, 0, 0, 0, 3, 36, 109, 97, 116, 99, 104, 0,
             12, 0, 0, 0, 16, 120, 0, 1, 0, 0, 0, 0, 0,
           0], False) \<and>
   \<not> spec_hasOutputStage (pipelineValues
          [33, 0, 0, 0,
           3, 48, 0, 25, 0, 0, 0, 3, 36, 109, 97, 116, 99, 104, 0,
             12, 0, 0, 0, 16, 120, 0, 1, 0, 0, 0, 0, 0,
           0])"
proof -
  have r1: "marshalAggregatePipeline exampleEnv
     (GUser None None
        (Some [GRaw [25, 0, 0, 0, 3, 36, 109, 97, 116, 99, 104, 0,
                     12, 0, 0, 0, 16, 120, 0, 1, 0, 0, 0, 0, 0],
               GRaw [20, 0, 0, 0, 2, 36, 111, 117, 116, 0,
                     5, 0, 0, 0, 99, 111, 108, 108, 0, 0]]) 0) None None
   = Inr ([56, 0, 0, 0,
           3, 48, 0, 25, 0, 0, 0, 3, 36, 109, 97, 116, 99, 104, 0,
             12, 0, 0, 0, 16, 120, 0, 1, 0, 0, 0, 0, 0,
           3, 49, 0, 20, 0, 0, 0, 2, 36, 111, 117, 116, 0,
             5, 0, 0, 0, 99, 111, 108, 108, 0, 0,
           0], True)"
    by code_simp
  have r2: "marshalAggregatePipeline exampleEnv
     (GUser None None
        (Some [GRaw [25, 0, 0, 0, 3, 36, 109, 97, 116, 99, 104, 0,
                     12, 0, 0, 0, 16, 120, 0, 1, 0, 0, 0, 0, 0]]) 0) None None
   = Inr ([33, 0, 0, 0,
           3, 48, 0, 25, 0, 0, 0, 3, 36, 109, 97, 116, 99, 104, 0,
             12, 0, 0, 0, 16, 120, 0, 1, 0, 0, 0, 0, 0,
           0], False)"
    by code_simp
  show ?thesis
    using hasOutputStage_spec [where E = exampleEnv and bo = None and reg = None
            and pipeline = "GUser None None
        (Some [GRaw [25, 0, 0, 0, 3, 36, 109, 97, 116, 99, 104, 0,
                     12, 0, 0, 0, 16, 120, 0, 1, 0, 0, 0, 0, 0],
               GRaw [20, 0, 0, 0, 2, 36, 111, 117, 116, 0,
                     5, 0, 0, 0, 99, 111, 108, 108, 0, 0]]) 0"
            and arr = "[56, 0, 0, 0,
           3, 48, 0, 25, 0, 0, 0, 3, 36, 109, 97, 116, 99, 104, 0,
             12, 0, 0, 0, 16, 120, 0, 1, 0, 0, 0, 0, 0,
           3, 49, 0, 20, 0, 0, 0, 2, 36, 111, 117, 116, 0,
             5, 0, 0, 0, 99, 111, 108, 108, 0, 0,
           0]" and hos = True]
      hasOutputStage_spec [where E = exampleEnv and bo = None and reg = None
            and pipeline = "GUser None None
        (Some [GRaw [25, 0, 0, 0, 3, 36, 109, 97, 116, 99, 104, 0,
                     12, 0, 0, 0, 16, 120, 0, 1, 0, 0, 0, 0, 0]]) 0"
            and arr = "[33, 0, 0, 0,
           3, 48, 0, 25, 0, 0, 0, 3, 36, 109, 97, 116, 99, 104, 0,
             12, 0, 0, 0, 16, 120, 0, 1, 0, 0, 0, 0, 0,
           0]" and hos = False]
      exampleEnv_wf
    unfolding r1 r2
    by simp
qed

section \<open>marshalAggregatePipeline: a ValueMarshaler's bytes are not validated\<close>

text \<open>
  C10 (as the code has it): when a ValueMarshaler declares an array and returns no error,
  \<open>marshalAggregatePipeline\<close> succeeds with the bytes as they are, whatever they are. An
  error of the enumeration of their values is dropped, and the flag is computed from the
  values that were enumerated before the failure: it is false when there is none, and
  otherwise it is decided by the last one that was read. The same bytes passed as a
  \<^verbatim>\<open>bsoncore.Array\<close> are refused when their enumeration fails, with the error of the
  validation or else with the error of the enumeration.
\<close>

theorem pipeline_ValueMarshaler_unvalidated:
  "marshalAggregatePipeline E (GUser m (Some (TypeArray, val, None)) els n) bsonOpts registry
     = Inr (val, spec_hasOutputStage (pipelineValues val)) \<and>
   (pipelineValues val = [] \<longrightarrow>
      marshalAggregatePipeline E (GUser m (Some (TypeArray, val, None)) els n) bsonOpts registry
        = Inr (val, False)) \<and>
   (snd (Values val) = Some err \<longrightarrow>
      marshalAggregatePipeline E (GCoreArray val) bsonOpts registry
        = Inl (case Validate E val of Some e \<Rightarrow> ValidateError e | None \<Rightarrow> err))"
  unfolding pipeline_ValueMarshaler_result pipeline_CoreArray_result
  by (simp add: spec_hasOutputStage_def split: option.splits)

text \<open>An array cut off in the middle of its only element, the stage \<open>{$out: {}}\<close>.\<close>

theorem pipeline_ValueMarshaler_unvalidated_witness:
  "pipelineValues [24, 0, 0, 0, 3, 48, 0, 16, 0, 0, 0, 3, 36, 111, 117, 116, 0, 5, 0] = [] \<and>
   snd (Values [24, 0, 0, 0, 3, 48, 0, 16, 0, 0, 0, 3, 36, 111, 117, 116, 0, 5, 0])
     = Some InsufficientBytesError \<and>
   marshalAggregatePipeline exampleEnv
     (GUser None (Some (TypeArray,
        [24, 0, 0, 0, 3, 48, 0, 16, 0, 0, 0, 3, 36, 111, 117, 116, 0, 5, 0], None)) None 0)
     None None
     = Inr ([24, 0, 0, 0, 3, 48, 0, 16, 0, 0, 0, 3, 36, 111, 117, 116, 0, 5, 0], False) \<and>
   marshalAggregatePipeline exampleEnv
     (GCoreArray [24, 0, 0, 0, 3, 48, 0, 16, 0, 0, 0, 3, 36, 111, 117, 116, 0, 5, 0]) None None
     = Inl (ValidateError ''invalid array'')"
proof -
  have a: "Values [24, 0, 0, 0, 3, 48, 0, 16, 0, 0, 0, 3, 36, 111, 117, 116, 0, 5, 0]
             = ([], Some InsufficientBytesError)"
    by code_simp
  show ?thesis
    using pipeline_ValueMarshaler_unvalidated
            [of exampleEnv None "[24, 0, 0, 0, 3, 48, 0, 16, 0, 0, 0, 3, 36, 111, 117, 116, 0, 5, 0]"
                None 0 None None InsufficientBytesError]
    by (auto simp: exampleEnv_fields a pipelineValues_def)
qed

text \<open>
  An array that holds the stage \<open>{$out: {}}\<close> in full and is cut off in the middle of a
  second element: the enumeration fails after it has read the first value, the bytes are
  no well-formed array, and the flag is true.
\<close>

theorem pipeline_ValueMarshaler_unvalidated_counterexample:
  "Values [40, 0, 0, 0,
           3, 48, 0, 16, 0, 0, 0, 3, 36, 111, 117, 116, 0, 5, 0, 0, 0, 0, 0,
           3, 49, 0, 16, 0, 0]
     = ([\<lparr>Type = TypeEmbeddedDocument,
          Data = [16, 0, 0, 0, 3, 36, 111, 117, 116, 0, 5, 0, 0, 0, 0, 0]\<rparr>],
        Some InsufficientBytesError) \<and>
   marshalAggregatePipeline exampleEnv
     (GUser None (Some (TypeArray,
        [40, 0, 0, 0,
         3, 48, 0, 16, 0, 0, 0, 3, 36, 111, 117, 116, 0, 5, 0, 0, 0, 0, 0,
         3, 49, 0, 16, 0, 0], None)) None 0)
     None None
     = Inr ([40, 0, 0, 0,
             3, 48, 0, 16, 0, 0, 0, 3, 36, 111, 117, 116, 0, 5, 0, 0, 0, 0, 0,
             3, 49, 0, 16, 0, 0], True)"
  by code_simp

section \<open>marshalUpdateValue on a ValueMarshaler\<close>

text \<open>
  For an update that implements \<^verbatim>\<open>bson.ValueMarshaler\<close> (and not \<^verbatim>\<open>bson.Marshaler\<close>), the
  returned value carries the declared type and the returned bytes; the error is the
  method's error when it has one, the type-mismatch error when the declared type is
  neither array nor document, and nil otherwise. Neither dollar-key check is called.
\<close>

lemma update_ValueMarshaler_branch:
  "marshalUpdateValue E (GUser None (Some (tt, data, err)) els n) bsonOpts registry
       dollarKeysAllowed =
     (\<lparr>Type = tt, Data = data\<rparr>,
      case err of
        Some e \<Rightarrow> Some (UserError e)
      | None \<Rightarrow>
          if tt \<noteq> TypeArray \<and> tt \<noteq> TypeEmbeddedDocument
          then Some (ErrUpdateValueMarshalerType tt) else None)"
  by (simp add: marshalUpdateValue_def split: option.splits)

text \<open>
  C4: the check of the dollar keys is missing for a ValueMarshaler that declares a
  document. With dollar keys required, a ValueMarshaler that returns the document
  \<open>{name: {}}\<close> is accepted, although \<open>ensureDollarKey\<close> refuses these bytes; the same
  bytes given as a \<^verbatim>\<open>bson.Raw\<close>, a \<^verbatim>\<open>bsoncore.Document\<close>, a byte slice, a
  \<^verbatim>\<open>bson.Marshaler\<close> or the only element of a slice are refused with the error of the
  check.
\<close>

theorem update_ValueMarshaler_unchecked:
  "marshalUpdateValue exampleEnv
     (GUser None (Some (TypeEmbeddedDocument,
        [16, 0, 0, 0, 3, 110, 97, 109, 101, 0, 5, 0, 0, 0, 0, 0], None)) None 0) None None True
     = (\<lparr>Type = TypeEmbeddedDocument,
          Data = [16, 0, 0, 0, 3, 110, 97, 109, 101, 0, 5, 0, 0, 0, 0, 0]\<rparr>, None) \<and>
   ensureDollarKey [16, 0, 0, 0, 3, 110, 97, 109, 101, 0, 5, 0, 0, 0, 0, 0]
     = Some ErrUpdateNoDollarKey \<and>
   snd (marshalUpdateValue exampleEnv
     (GRaw [16, 0, 0, 0, 3, 110, 97, 109, 101, 0, 5, 0, 0, 0, 0, 0]) None None True)
     = Some ErrUpdateNoDollarKey \<and>
   snd (marshalUpdateValue exampleEnv
     (GCoreDocument [16, 0, 0, 0, 3, 110, 97, 109, 101, 0, 5, 0, 0, 0, 0, 0]) None None True)
     = Some ErrUpdateNoDollarKey \<and>
   snd (marshalUpdateValue exampleEnv
     (GBytes [16, 0, 0, 0, 3, 110, 97, 109, 101, 0, 5, 0, 0, 0, 0, 0]) None None True)
     = Some ErrUpdateNoDollarKey \<and>
   snd (marshalUpdateValue exampleEnv
     (GUser (Some ([16, 0, 0, 0, 3, 110, 97, 109, 101, 0, 5, 0, 0, 0, 0, 0], None))
        (Some (TypeEmbeddedDocument,
           [16, 0, 0, 0, 3, 110, 97, 109, 101, 0, 5, 0, 0, 0, 0, 0], None)) None 0)
     None None True)
     = Some ErrUpdateNoDollarKey \<and>
   snd (marshalUpdateValue exampleEnv
     (GUser None None
        (Some [GRaw [16, 0, 0, 0, 3, 110, 97, 109, 101, 0, 5, 0, 0, 0, 0, 0]]) 0)
     None None True)
     = Some ErrUpdateNoDollarKey"
  by code_simp

end
